theory Spec2Isabelle
  imports Main "HOL-Library.Char_ord" "HOL-Library.List_Lexorder"
begin

section \<open>Python values\<close>

text \<open>
  The ledger of \<^verbatim>\<open>src/blockchain/local_chain.py\<close> stores blocks as Python dicts
  whose values are whatever \<^verbatim>\<open>json.load\<close> or the caller supplied. A value is
  modelled as a JSON tree; a dict is an association list in insertion order, whose keys
  are distinct in every value Python can build. Strings stand for their UTF-8
  encoding, whose bytewise order is Python's code point order. Floating-point numbers
  are outside the embedding.
\<close>

datatype json =
    JNull
  | JBool bool
  | JInt int
  | JStr string
  | JList "json list"
  | JObj "(string \<times> json) list"

type_synonym pydict = "(string \<times> json) list"

datatype error = TypeError | KeyError | AttributeError | ValueError | OverflowError | MemoryError

text \<open>
  A call either returns, raises, or (the Proof-of-Work loop) runs forever.
\<close>

datatype 'a outcome = Diverges | Raises error | Returns 'a

subsection \<open>Library functions the ledger calls\<close>

text \<open>
  \<^verbatim>\<open>hashlib\<close>, \<^verbatim>\<open>cryptography\<close> and parts of the Python runtime are not code of the
  repository. They are parameters of the model:
  \<^item> \<open>sha256_hex s\<close> is \<^verbatim>\<open>hashlib.sha256(s.encode()).hexdigest()\<close>;
  \<^item> \<open>json_quote s\<close> is the JSON string literal \<^verbatim>\<open>json.dumps\<close> writes for \<open>s\<close>;
  \<^item> \<open>py_repr v\<close> is \<^verbatim>\<open>str(v)\<close> for a list or a dict;
  \<^item> \<open>parse_int s\<close> is \<^verbatim>\<open>int(s)\<close> for a string, \<open>None\<close> when it raises;
  \<^item> \<open>public_pem k\<close> is the PEM text of the public key of the private key \<open>k\<close>;
  \<^item> \<open>rsa_sign k m r\<close> is the hex form of the RSA-PSS signature of the text \<open>m\<close>
    under \<open>k\<close>, drawn with the random salt \<open>r\<close>;
  \<^item> \<open>rsa_verify pem m sig\<close> is the body of \<^verbatim>\<open>_verify_signature\<close> after the
    serialisation: load the PEM, decode the hex, verify; any exception is \<open>False\<close>;
  \<^item> \<open>max_str\<close> is the length of the longest string the allocator of the process
    can build: a longer request raises MemoryError.
\<close>

record prims =
  sha256_hex :: "string \<Rightarrow> string"
  json_quote :: "string \<Rightarrow> string"
  py_repr :: "json \<Rightarrow> string"
  parse_int :: "string \<Rightarrow> int option"
  public_pem :: "nat \<Rightarrow> string"
  rsa_sign :: "nat \<Rightarrow> string \<Rightarrow> nat \<Rightarrow> string"
  rsa_verify :: "string \<Rightarrow> string \<Rightarrow> string \<Rightarrow> bool"
  max_str :: nat

subsection \<open>Built-in operations\<close>

text \<open>\<^verbatim>\<open>k in d\<close>, \<^verbatim>\<open>d.get(k)\<close> (None when absent), \<^verbatim>\<open>d.get(k, default)\<close>,
  \<^verbatim>\<open>d[k]\<close> and \<^verbatim>\<open>d[k] = v\<close>.\<close>

definition dict_has :: "pydict \<Rightarrow> string \<Rightarrow> bool" where
  "dict_has d k = (map_of d k \<noteq> None)"

definition dict_get_default :: "pydict \<Rightarrow> string \<Rightarrow> json \<Rightarrow> json" where
  "dict_get_default d k dflt = (case map_of d k of None \<Rightarrow> dflt | Some v \<Rightarrow> v)"

definition dict_get :: "pydict \<Rightarrow> string \<Rightarrow> json" where
  "dict_get d k = dict_get_default d k JNull"

definition dict_item :: "pydict \<Rightarrow> string \<Rightarrow> error + json" where
  "dict_item d k = (case map_of d k of None \<Rightarrow> Inl KeyError | Some v \<Rightarrow> Inr v)"

fun dict_set :: "string \<Rightarrow> json \<Rightarrow> pydict \<Rightarrow> pydict" where
  "dict_set k v [] = [(k, v)]"
| "dict_set k v (p # ps) = (if fst p = k then (k, v) # ps else p # dict_set k v ps)"

text \<open>Truthiness, as \<^verbatim>\<open>if x\<close> and \<^verbatim>\<open>x or y\<close> read it.\<close>

fun py_truthy :: "json \<Rightarrow> bool" where
  "py_truthy JNull = False"
| "py_truthy (JBool b) = b"
| "py_truthy (JInt n) = (n \<noteq> 0)"
| "py_truthy (JStr s) = (s \<noteq> [])"
| "py_truthy (JList xs) = (xs \<noteq> [])"
| "py_truthy (JObj kvs) = (kvs \<noteq> [])"

definition py_or :: "json \<Rightarrow> json \<Rightarrow> json" where
  "py_or x y = (if py_truthy x then x else y)"

text \<open>\<^verbatim>\<open>str(n)\<close> for an integer: decimal digits, with a minus sign.\<close>

definition digit_char :: "nat \<Rightarrow> char" where
  "digit_char d = ''0123456789'' ! d"

fun str_nat :: "nat \<Rightarrow> string" where
  "str_nat n = (if n < 10 then [digit_char n] else str_nat (n div 10) @ [digit_char (n mod 10)])"

definition str_int :: "int \<Rightarrow> string" where
  "str_int i = (if i < 0 then CHR ''-'' # str_nat (nat (- i)) else str_nat (nat i))"

text \<open>\<^verbatim>\<open>int(x)\<close>; \<open>None\<close> when it raises (TypeError or ValueError).\<close>

fun py_int :: "prims \<Rightarrow> json \<Rightarrow> int option" where
  "py_int P JNull = None"
| "py_int P (JBool b) = Some (if b then 1 else 0)"
| "py_int P (JInt n) = Some n"
| "py_int P (JStr s) = parse_int P s"
| "py_int P (JList xs) = None"
| "py_int P (JObj kvs) = None"

text \<open>What an f-string writes for \<^verbatim>\<open>{x}\<close>.\<close>

fun py_str :: "prims \<Rightarrow> json \<Rightarrow> string" where
  "py_str P JNull = ''None''"
| "py_str P (JBool b) = (if b then ''True'' else ''False'')"
| "py_str P (JInt n) = str_int n"
| "py_str P (JStr s) = s"
| "py_str P (JList xs) = py_repr P (JList xs)"
| "py_str P (JObj kvs) = py_repr P (JObj kvs)"

text \<open>
  \<^verbatim>\<open>x == y\<close>: \<^verbatim>\<open>True == 1\<close>, lists compare pointwise and dicts as sets of items,
  so two values are equal when their normal forms are.
\<close>

fun canon :: "json \<Rightarrow> json" where
  "canon (JBool b) = JInt (if b then 1 else 0)"
| "canon (JList xs) = JList (map canon xs)"
| "canon (JObj kvs) = JObj (sort_key fst (map (\<lambda>(k, v). (k, canon v)) kvs))"
| "canon JNull = JNull"
| "canon (JInt n) = JInt n"
| "canon (JStr s) = JStr s"

definition py_eq :: "json \<Rightarrow> json \<Rightarrow> bool" where
  "py_eq x y = (canon x = canon y)"

text \<open>\<^verbatim>\<open>s.startswith(p)\<close>, \<^verbatim>\<open>f in s\<close> for strings, \<^verbatim>\<open>sep.join(xs)\<close>.\<close>

definition startswith :: "string \<Rightarrow> string \<Rightarrow> bool" where
  "startswith s p = (take (length p) s = p)"

definition str_contains :: "string \<Rightarrow> string \<Rightarrow> bool" where
  "str_contains f s = list_ex (\<lambda>i. take (length f) (drop i s) = f) [0..<Suc (length s)]"

text \<open>
  \<^verbatim>\<open>"0" * n\<close>: the count is converted to an index, which raises OverflowError
  outside the 64-bit signed range; the string is then allocated, which raises
  MemoryError beyond what the process can build; a count of 0 or less gives the empty
  string.
\<close>

definition repeat_zero :: "prims \<Rightarrow> int \<Rightarrow> error + string" where
  "repeat_zero P n =
     (if n < - (2 ^ 63) \<or> 2 ^ 63 \<le> n then Inl OverflowError
      else if int (max_str P) < n then Inl MemoryError
      else Inr (replicate (nat n) CHR ''0''))"

text \<open>\<^verbatim>\<open>len(x)\<close>: TypeError on \<^verbatim>\<open>None\<close>, a boolean or a number.\<close>

fun py_len :: "json \<Rightarrow> error + nat" where
  "py_len (JStr s) = Inr (length s)"
| "py_len (JList xs) = Inr (length xs)"
| "py_len (JObj kvs) = Inr (length kvs)"
| "py_len v = Inl TypeError"

fun join :: "string \<Rightarrow> string list \<Rightarrow> string" where
  "join sep [] = []"
| "join sep [x] = x"
| "join sep (x # y # ys) = x @ sep @ join sep (y # ys)"

text \<open>
  \<^verbatim>\<open>json.dumps(v, sort_keys=True)\<close>: the items of every dict are written in the order
  of their keys, separated by \<^verbatim>\<open>", "\<close> and \<^verbatim>\<open>": "\<close>.
\<close>

fun json_dumps :: "prims \<Rightarrow> json \<Rightarrow> string" where
  "json_dumps P JNull = ''null''"
| "json_dumps P (JBool b) = (if b then ''true'' else ''false'')"
| "json_dumps P (JInt n) = str_int n"
| "json_dumps P (JStr s) = json_quote P s"
| "json_dumps P (JList xs) = ''['' @ join '', '' (map (json_dumps P) xs) @ '']''"
| "json_dumps P (JObj kvs) =
     ''{'' @ join '', '' (map (\<lambda>(k, s). json_quote P k @ '': '' @ s)
                          (sort_key fst (map (\<lambda>(k, v). (k, json_dumps P v)) kvs))) @ ''}''"

section \<open>The ledger\<close>

text \<open>
  \<^verbatim>\<open>LocalBlockchain\<close>: the constructor admits only the two consensus names, so the
  attribute is an enumeration; \<open>consensus_tag\<close> is the string a block records. The file
  \<^verbatim>\<open>chain.json\<close> is absent, or present and rejected by \<^verbatim>\<open>json.load\<close>, or present
  with the value \<^verbatim>\<open>json.load\<close> returns. \<^verbatim>\<open>json.dump\<close> followed by \<^verbatim>\<open>json.load\<close>
  is the identity on the values modelled.
\<close>

datatype consensus_mode = PoW | PoA

fun consensus_tag :: "consensus_mode \<Rightarrow> string" where
  "consensus_tag PoW = ''pow''"
| "consensus_tag PoA = ''poa''"

datatype chain_file = Absent | Unparseable | Content json

record ledger =
  consensus :: consensus_mode
  chain_list :: "pydict list"
  nodes :: "string set"
  difficulty :: int
  private_key :: nat
  disk :: chain_file

definition chain_json :: "pydict list \<Rightarrow> json" where
  "chain_json c = JList (map JObj c)"

definition save_chain :: "ledger \<Rightarrow> ledger" where
  "save_chain w = w\<lparr>disk := Content (chain_json (chain_list w))\<rparr>"

subsection \<open>Merkle root, digests, signatures\<close>

definition calculate_merkle_root :: "prims \<Rightarrow> pydict \<Rightarrow> string" where
  "calculate_merkle_root P data = sha256_hex P (json_dumps P (JObj data))"

definition block_data :: "pydict \<Rightarrow> json" where
  "block_data block = py_or (dict_get_default block ''data'' (JObj [])) (JObj [])"

definition calculate_merkle_for_block :: "prims \<Rightarrow> pydict \<Rightarrow> string" where
  "calculate_merkle_for_block P block = sha256_hex P (json_dumps P (block_data block))"

definition compute_pow_hash :: "prims \<Rightarrow> json \<Rightarrow> int \<Rightarrow> json \<Rightarrow> int \<Rightarrow> string" where
  "compute_pow_hash P previous_hash timestamp merkle_root nonce =
     sha256_hex P (py_str P previous_hash @ str_int timestamp @ py_str P merkle_root @ str_int nonce)"

definition compute_poa_hash :: "prims \<Rightarrow> json \<Rightarrow> int \<Rightarrow> json \<Rightarrow> json \<Rightarrow> string" where
  "compute_poa_hash P previous_hash timestamp merkle_root authority =
     sha256_hex P (py_str P previous_hash @ str_int timestamp @ py_str P merkle_root @ py_str P authority)"

definition authority_id :: "prims \<Rightarrow> ledger \<Rightarrow> string" where
  "authority_id P w = take 16 (sha256_hex P (public_pem P (private_key w)))"

definition sign_data :: "prims \<Rightarrow> ledger \<Rightarrow> pydict \<Rightarrow> nat \<Rightarrow> string" where
  "sign_data P w data salt = rsa_sign P (private_key w) (json_dumps P (JObj data)) salt"

fun verify_signature :: "prims \<Rightarrow> json \<Rightarrow> json \<Rightarrow> json \<Rightarrow> bool" where
  "verify_signature P (JStr pem) data (JStr sig) = rsa_verify P pem (json_dumps P data) sig"
| "verify_signature P pem data sig = False"

subsection \<open>Block creation\<close>

text \<open>
  The Proof-of-Work loop of \<^verbatim>\<open>create_block\<close>: \<open>digest n\<close> is the digest with nonce
  \<open>n\<close>. The loop has no bound, so not returning is the value \<open>None\<close>.
\<close>

partial_function (option) pow_loop :: "(int \<Rightarrow> string) \<Rightarrow> string \<Rightarrow> int \<Rightarrow> (int \<times> string) option" where
  "pow_loop digest pre nonce =
     (if startswith (digest nonce) pre then Some (nonce, digest nonce)
      else pow_loop digest pre (nonce + 1))"

definition genesis_data :: pydict where
  "genesis_data = [(''system'', JStr ''Blockchain Initialized'')]"

text \<open>
  \<open>now\<close> is the clock reading \<^verbatim>\<open>int(time.time())\<close> and \<open>salt\<close> the randomness of the
  signature. The result is the block and the ledger after the append and the save. The
  node's difficulty is the operator's configuration, and its prefix \<^verbatim>\<open>"0" * difficulty\<close>
  is taken to be one the process can build.
\<close>

definition create_block :: "prims \<Rightarrow> ledger \<Rightarrow> pydict \<Rightarrow> int \<Rightarrow> nat \<Rightarrow> (pydict \<times> ledger) outcome" where
  "create_block P w data now salt =
     (case (if chain_list w \<noteq> [] then dict_item (last (chain_list w)) ''hash'' else Inr (JStr ''0'')) of
        Inl e \<Rightarrow> Raises e
      | Inr previous_hash \<Rightarrow>
          let merkle_root = calculate_merkle_root P data in
          (case (case consensus w of
                   PoW \<Rightarrow>
                     map_option (\<lambda>(nonce, block_hash). (nonce, difficulty w, block_hash, None))
                       (pow_loop (compute_pow_hash P previous_hash now (JStr merkle_root))
                          (replicate (nat (difficulty w)) CHR ''0'') 0)
                 | PoA \<Rightarrow>
                     Some (0, 0,
                       compute_poa_hash P previous_hash now (JStr merkle_root) (JStr (authority_id P w)),
                       Some (authority_id P w))) of
             None \<Rightarrow> Diverges
           | Some (nonce, dif, block_hash, authority) \<Rightarrow>
               let block =
                     [(''index'', JInt (int (length (chain_list w)) + 1)),
                      (''timestamp'', JInt now),
                      (''data'', JObj data),
                      (''merkle_root'', JStr merkle_root),
                      (''previous_hash'', previous_hash),
                      (''hash'', JStr block_hash),
                      (''nonce'', JInt nonce),
                      (''difficulty'', JInt dif),
                      (''consensus'', JStr (consensus_tag (consensus w))),
                      (''signature'', JStr (sign_data P w data salt)),
                      (''public_key'', JStr (public_pem P (private_key w)))]
                     @ (case authority of None \<Rightarrow> [] | Some a \<Rightarrow> [(''authority_id'', JStr a)])
               in Returns (block, save_chain (w\<lparr>chain_list := chain_list w @ [block]\<rparr>))))"

definition store_evaluation :: "prims \<Rightarrow> ledger \<Rightarrow> pydict \<Rightarrow> int \<Rightarrow> nat \<Rightarrow> (pydict \<times> ledger) outcome" where
  "store_evaluation P w evaluation now salt = create_block P w evaluation now salt"

definition create_genesis_block :: "prims \<Rightarrow> ledger \<Rightarrow> int \<Rightarrow> nat \<Rightarrow> ledger outcome" where
  "create_genesis_block P w now salt =
     (case create_block P w genesis_data now salt of
        Diverges \<Rightarrow> Diverges | Raises e \<Rightarrow> Raises e | Returns (b, w') \<Rightarrow> Returns w')"

definition init_fresh_chain :: "prims \<Rightarrow> ledger \<Rightarrow> int \<Rightarrow> nat \<Rightarrow> ledger outcome" where
  "init_fresh_chain P w now salt =
     (case create_genesis_block P (w\<lparr>chain_list := []\<rparr>) now salt of
        Diverges \<Rightarrow> Diverges | Raises e \<Rightarrow> Raises e | Returns w' \<Rightarrow> Returns (save_chain w'))"

subsection \<open>Validation\<close>

definition required_fields :: "string list" where
  "required_fields = [''timestamp'', ''data'', ''merkle_root'', ''hash'']"

text \<open>The \<^verbatim>\<open>try\<close> block of step 3: \<open>None\<close> when an \<^verbatim>\<open>int(...)\<close> raises.\<close>

definition numeric_fields :: "prims \<Rightarrow> pydict \<Rightarrow> (int \<times> int \<times> int) option" where
  "numeric_fields P block =
     (case py_int P (dict_get_default block ''timestamp'' (JInt 0)) of
        None \<Rightarrow> None
      | Some timestamp \<Rightarrow>
          (case (if dict_has block ''nonce'' then py_int P (dict_get_default block ''nonce'' (JInt 0)) else Some 0) of
             None \<Rightarrow> None
           | Some nonce \<Rightarrow>
               (case (if dict_has block ''difficulty''
                      then py_int P (dict_get_default block ''difficulty'' (JInt 0)) else Some 0) of
                  None \<Rightarrow> None
                | Some dif \<Rightarrow> Some (timestamp, nonce, dif))))"

text \<open>
  Step 3 after the \<^verbatim>\<open>try\<close> block: the digest of the block's own mode. \<open>Inr False\<close>
  is \<^verbatim>\<open>return False\<close> and \<open>Inr True\<close> falls through to step 4. The prefix
  \<^verbatim>\<open>"0" * difficulty\<close> is built outside the \<^verbatim>\<open>try\<close> block, once the hash has matched
  and only for a positive difficulty, so what it raises leaves the validator.
\<close>

definition consensus_check :: "prims \<Rightarrow> pydict \<Rightarrow> int \<Rightarrow> int \<Rightarrow> int \<Rightarrow> error + bool" where
  "consensus_check P block timestamp nonce dif =
     (let prev_hash = dict_get_default block ''previous_hash'' (JStr []);
          merkle_root = dict_get_default block ''merkle_root'' (JStr []);
          tag = dict_get_default block ''consensus'' (JStr (if dif > 0 then ''pow'' else ''poa''))
      in if py_eq tag (JStr ''pow'') then
           (let recomputed_hash = compute_pow_hash P prev_hash timestamp merkle_root nonce in
              if \<not> py_eq (JStr recomputed_hash) (dict_get block ''hash'') then Inr False
              else if dif > 0 then
                (case repeat_zero P dif of
                   Inl e \<Rightarrow> Inl e
                 | Inr prefix \<Rightarrow> if \<not> startswith recomputed_hash prefix then Inr False else Inr True)
              else Inr True)
         else
           (let authority = dict_get_default block ''authority_id'' (JStr []);
                recomputed_hash = compute_poa_hash P prev_hash timestamp merkle_root authority
            in if \<not> py_eq (JStr recomputed_hash) (dict_get block ''hash'') then Inr False else Inr True))"

text \<open>Step 4: checked only when both fields are truthy.\<close>

definition signature_check :: "prims \<Rightarrow> pydict \<Rightarrow> bool" where
  "signature_check P block =
     (let signature_hex = dict_get block ''signature'';
          pem = dict_get block ''public_key''
      in if py_truthy signature_hex \<and> py_truthy pem
         then verify_signature P pem (block_data block) signature_hex
         else True)"

text \<open>
  The body of the loop for a block that is a dict; \<open>prev\<close> is the block before it,
  \<open>None\<close> at the first block. \<open>Inr False\<close> is \<^verbatim>\<open>return False\<close>, \<open>Inr True\<close> goes
  on to the next block.
\<close>

definition check_block :: "prims \<Rightarrow> pydict option \<Rightarrow> pydict \<Rightarrow> error + bool" where
  "check_block P prev block =
     (if list_ex (\<lambda>field. \<not> dict_has block field) required_fields then Inr False
      else if (case prev of
                 None \<Rightarrow> False
               | Some previous \<Rightarrow> \<not> py_eq (dict_get block ''previous_hash'') (dict_get previous ''hash''))
           then Inr False
      else if \<not> py_eq (dict_get block ''merkle_root'') (JStr (calculate_merkle_for_block P block))
           then Inr False
      else (case numeric_fields P block of
              None \<Rightarrow> Inr False
            | Some (timestamp, nonce, dif) \<Rightarrow>
                (case consensus_check P block timestamp nonce dif of
                   Inl e \<Rightarrow> Inl e
                 | Inr ok \<Rightarrow>
                     if \<not> ok then Inr False
                     else Inr (signature_check P block))))"

text \<open>
  The loop over the chain. Nothing constrains what \<^verbatim>\<open>json.load\<close> returned, so an
  element need not be a dict: on a string \<^verbatim>\<open>field not in block\<close> is a substring test,
  on a list a membership test, and on anything else it raises TypeError; a string or a
  list that holds all four names reaches \<^verbatim>\<open>block.get\<close>, which raises AttributeError.
\<close>

fun check_blocks :: "prims \<Rightarrow> pydict option \<Rightarrow> json list \<Rightarrow> error + bool" where
  "check_blocks P prev [] = Inr True"
| "check_blocks P prev (JObj block # bs) =
     (case check_block P prev block of
        Inl e \<Rightarrow> Inl e
      | Inr ok \<Rightarrow> if ok then check_blocks P (Some block) bs else Inr False)"
| "check_blocks P prev (JStr s # bs) =
     (if list_ex (\<lambda>field. \<not> str_contains field s) required_fields then Inr False
      else Inl AttributeError)"
| "check_blocks P prev (JList xs # bs) =
     (if list_ex (\<lambda>field. \<not> list_ex (\<lambda>x. py_eq x (JStr field)) xs) required_fields then Inr False
      else Inl AttributeError)"
| "check_blocks P prev (b # bs) = Inl TypeError"

text \<open>
  \<^verbatim>\<open>is_valid_chain\<close>: a falsy value is rejected; \<^verbatim>\<open>len\<close> raises TypeError on a number
  or a boolean; indexing a non-empty dict by \<^verbatim>\<open>0\<close> raises KeyError; a string is a
  sequence of one-character strings.
\<close>

definition is_valid_chain :: "prims \<Rightarrow> json \<Rightarrow> error + bool" where
  "is_valid_chain P chain =
     (if \<not> py_truthy chain then Inr False
      else (case chain of
              JList bs \<Rightarrow> check_blocks P None bs
            | JStr s \<Rightarrow> check_blocks P None (map (\<lambda>c. JStr [c]) s)
            | JObj d \<Rightarrow> Inl KeyError
            | _ \<Rightarrow> Inl TypeError))"

definition is_chain_valid :: "prims \<Rightarrow> ledger \<Rightarrow> error + bool" where
  "is_chain_valid P w = is_valid_chain P (chain_json (chain_list w))"

subsection \<open>Persistence and start-up\<close>

text \<open>\<^verbatim>\<open>load_chain\<close>: the new value of \<^verbatim>\<open>self.chain\<close>, which was \<open>cur\<close>.\<close>

definition load_chain :: "chain_file \<Rightarrow> json \<Rightarrow> json" where
  "load_chain f cur = (case f of Absent \<Rightarrow> cur | Unparseable \<Rightarrow> JList [] | Content v \<Rightarrow> v)"

text \<open>The blocks of a loaded value that the validator accepted: a list of dicts.\<close>

fun blocks_of :: "json \<Rightarrow> pydict list" where
  "blocks_of (JList bs) = concat (map (\<lambda>b. case b of JObj d \<Rightarrow> [d] | _ \<Rightarrow> []) bs)"
| "blocks_of v = []"

text \<open>
  \<^verbatim>\<open>__init__\<close>: \<open>key\<close> is the key pair \<^verbatim>\<open>rsa.generate_private_key\<close> draws, \<open>f\<close> the
  file at start-up, \<open>difficulty_arg\<close> the optional argument (default 4).
\<close>

definition DEFAULT_DIFFICULTY :: int where
  "DEFAULT_DIFFICULTY = 4"

definition init :: "prims \<Rightarrow> string \<Rightarrow> int option \<Rightarrow> nat \<Rightarrow> int \<Rightarrow> nat \<Rightarrow> chain_file \<Rightarrow> ledger outcome" where
  "init P consensus_arg difficulty_arg key now salt f =
     (if consensus_arg \<noteq> ''pow'' \<and> consensus_arg \<noteq> ''poa'' then Raises ValueError
      else
        let w = \<lparr>consensus = (if consensus_arg = ''pow'' then PoW else PoA),
                 chain_list = [],
                 nodes = {},
                 difficulty = (case difficulty_arg of None \<Rightarrow> DEFAULT_DIFFICULTY | Some d \<Rightarrow> d),
                 private_key = key,
                 disk = f\<rparr>;
            loaded = load_chain f (JList [])
        in if \<not> py_truthy loaded then init_fresh_chain P w now salt
           else (case is_valid_chain P loaded of
                   Inl e \<Rightarrow> Raises e
                 | Inr ok \<Rightarrow>
                     if \<not> ok then init_fresh_chain P w now salt
                     else Returns (w\<lparr>chain_list := blocks_of loaded\<rparr>)))"

subsection \<open>Chain replacement and the read helper\<close>

text \<open>
  \<^verbatim>\<open>replace_chain\<close>: the candidate is whatever the caller received from a peer, so it
  is a value like the loaded one; \<^verbatim>\<open>len\<close> and \<^verbatim>\<open>is_valid_chain\<close> may raise on it,
  and nothing catches that. A candidate the validator accepted is a list of dicts.
\<close>

definition replace_chain :: "prims \<Rightarrow> ledger \<Rightarrow> json \<Rightarrow> (bool \<times> ledger) outcome" where
  "replace_chain P w new_chain =
     (if \<not> py_truthy new_chain then Returns (False, w)
      else (case py_len new_chain of
              Inl e \<Rightarrow> Raises e
            | Inr n \<Rightarrow>
                if n \<le> length (chain_list w) then Returns (False, w)
                else (case is_valid_chain P new_chain of
                        Inl e \<Rightarrow> Raises e
                      | Inr ok \<Rightarrow>
                          if \<not> ok then Returns (False, w)
                          else Returns (True, save_chain (w\<lparr>chain_list := blocks_of new_chain\<rparr>)))))"

text \<open>
  \<^verbatim>\<open>self.chain[-limit:]\<close>: a negative start counts from the end and is clamped at the
  front, a start past the end is clamped at the end.
\<close>

definition py_slice_from :: "'a list \<Rightarrow> int \<Rightarrow> 'a list" where
  "py_slice_from xs start =
     (let n = int (length xs);
          s = (if start < 0 then max (start + n) 0 else min start n)
      in drop (nat s) xs)"

definition recent :: "ledger \<Rightarrow> int \<Rightarrow> pydict list" where
  "recent w limit = py_slice_from (chain_list w) (- limit)"

section \<open>Notions the properties are stated with\<close>

text \<open>
  On a list of dicts the loop of \<^verbatim>\<open>is_valid_chain\<close> stays in the dict case: it
  returns true when every block passes the per-block check.
\<close>

fun blocks_ok :: "prims \<Rightarrow> pydict option \<Rightarrow> pydict list \<Rightarrow> bool" where
  "blocks_ok P prev [] = True"
| "blocks_ok P prev (b # bs) = (check_block P prev b = Inr True \<and> blocks_ok P (Some b) bs)"

text \<open>The block before position \<open>i\<close> of a chain.\<close>

definition prev_block :: "pydict list \<Rightarrow> nat \<Rightarrow> pydict option" where
  "prev_block c i = (if i = 0 then None else Some (c ! (i - 1)))"

text \<open>
  What the RSA library promises: a signature made with a private key verifies under
  the public key of that key, for the same text.
\<close>

definition sig_correct :: "prims \<Rightarrow> bool" where
  "sig_correct P = (\<forall>k m r. rsa_verify P (public_pem P k) m (rsa_sign P k m r))"

text \<open>
  What the runtime promises of a digest: it is a string of the process, so it is no
  longer than the longest string the process can build, which has fewer than \<open>2^63\<close>
  characters (SHA-256 in hex has 64).
\<close>

definition digests_fit :: "prims \<Rightarrow> bool" where
  "digests_fit P = ((\<forall>s. length (sha256_hex P s) \<le> max_str P) \<and> int (max_str P) < 2 ^ 63)"

text \<open>Every Proof-of-Work search at difficulty \<open>d\<close> has a solution.\<close>

definition pow_solvable :: "prims \<Rightarrow> int \<Rightarrow> bool" where
  "pow_solvable P d =
     (\<forall>prev ts root. \<exists>n\<ge>0. startswith (compute_pow_hash P prev ts root n) (replicate (nat d) CHR ''0''))"

text \<open>
  A sequence of calls of \<^verbatim>\<open>store_evaluation\<close>, each with its payload, its clock
  reading and its salt, stopping at the first call that does not return.
\<close>

fun store_all :: "prims \<Rightarrow> ledger \<Rightarrow> (pydict \<times> int \<times> nat) list \<Rightarrow> ledger outcome" where
  "store_all P w [] = Returns w"
| "store_all P w ((evaluation, now, salt) # rest) =
     (case store_evaluation P w evaluation now salt of
        Diverges \<Rightarrow> Diverges
      | Raises e \<Rightarrow> Raises e
      | Returns (b, w') \<Rightarrow> store_all P w' rest)"

text \<open>A fresh ledger (\<^verbatim>\<open>_init_fresh_chain\<close>) followed by a sequence of appends.\<close>

definition fresh_then_store :: "prims \<Rightarrow> ledger \<Rightarrow> int \<Rightarrow> nat \<Rightarrow> (pydict \<times> int \<times> nat) list \<Rightarrow> ledger outcome" where
  "fresh_then_store P w now salt calls =
     (case init_fresh_chain P w now salt of
        Diverges \<Rightarrow> Diverges
      | Raises e \<Rightarrow> Raises e
      | Returns w1 \<Rightarrow> store_all P w1 calls)"

text \<open>
  The digest the data model prescribes for a block that records its mode, with integer
  timestamp and nonce: over the nonce under \<open>pow\<close>, over the authority id otherwise.
\<close>

definition recomputed_digest :: "prims \<Rightarrow> pydict \<Rightarrow> string option" where
  "recomputed_digest P b =
     (case (dict_get b ''timestamp'', dict_get b ''nonce'') of
        (JInt t, JInt n) \<Rightarrow>
          Some (if dict_get b ''consensus'' = JStr ''pow''
                then compute_pow_hash P (dict_get b ''previous_hash'') t (dict_get b ''merkle_root'') n
                else compute_poa_hash P (dict_get b ''previous_hash'') t (dict_get b ''merkle_root'')
                       (dict_get b ''authority_id''))
      | _ \<Rightarrow> None)"

text \<open>
  The invariant of the data model for one block: linkage, Merkle root, digest, leading
  zeros under Proof-of-Work, signature.
\<close>

definition block_invariant :: "prims \<Rightarrow> pydict option \<Rightarrow> pydict \<Rightarrow> bool" where
  "block_invariant P prev b =
     ((case prev of None \<Rightarrow> True | Some p \<Rightarrow> dict_get b ''previous_hash'' = dict_get p ''hash'')
      \<and> dict_get b ''merkle_root'' = JStr (calculate_merkle_for_block P b)
      \<and> (\<exists>h. recomputed_digest P b = Some h \<and> dict_get b ''hash'' = JStr h
             \<and> (\<forall>d. dict_get b ''consensus'' = JStr ''pow'' \<and> dict_get b ''difficulty'' = JInt d \<and> 0 < d
                    \<longrightarrow> startswith h (replicate (nat d) CHR ''0'')))
      \<and> verify_signature P (dict_get b ''public_key'') (block_data b) (dict_get b ''signature''))"

text \<open>
  Two payloads that are the same key-value map: equal up to the order of the keys of
  every dict in them.
\<close>

inductive same_payload :: "json \<Rightarrow> json \<Rightarrow> bool" where
  same_null: "same_payload JNull JNull"
| same_bool: "same_payload (JBool b) (JBool b)"
| same_int: "same_payload (JInt n) (JInt n)"
| same_str: "same_payload (JStr s) (JStr s)"
| same_list: "list_all2 same_payload xs ys \<Longrightarrow> same_payload (JList xs) (JList ys)"
| same_obj:
    "distinct (map fst xs) \<Longrightarrow> distinct (map fst ys) \<Longrightarrow> fst ` set xs = fst ` set ys \<Longrightarrow>
     (\<forall>k v v'. map_of xs k = Some v \<longrightarrow> map_of ys k = Some v' \<longrightarrow> same_payload v v') \<Longrightarrow>
     same_payload (JObj xs) (JObj ys)"

subsection \<open>A small instance of the library\<close>

text \<open>
  The properties hold for every choice of the library functions. Where a property is
  shown at a concrete input, the input is computed with this instance: the digest is a
  checksum of the bytes modulo 32 in two hex digits, a signature is the PEM text
  followed by the digest of the signed text. The blocks below are the ones this
  instance produces: a Proof-of-Authority chain of two blocks made at the clock
  readings 1000 and 1001, and a Proof-of-Work chain whose genesis is mined at
  difficulty 1 and whose second block at difficulty 2.
\<close>

definition hexdigit :: "nat \<Rightarrow> char" where
  "hexdigit d = ''0123456789abcdef'' ! d"

definition demo_sha :: "string \<Rightarrow> string" where
  "demo_sha s = (let c = sum_list (map of_char s) mod 32 in [hexdigit (c div 16), hexdigit (c mod 16)])"

definition demo :: prims where
  "demo = \<lparr>sha256_hex = demo_sha,
           json_quote = (\<lambda>s. CHR 0x22 # s @ [CHR 0x22]),
           py_repr = (\<lambda>v. ''[...]''),
           parse_int = (\<lambda>s. None),
           public_pem = (\<lambda>k. ''PEM'' @ str_nat k),
           rsa_sign = (\<lambda>k m r. ''PEM'' @ str_nat k @ '':'' @ demo_sha m),
           rsa_verify = (\<lambda>pem m sig. sig = pem @ '':'' @ demo_sha m),
           max_str = 64\<rparr>"

definition demo_ledger :: "consensus_mode \<Rightarrow> int \<Rightarrow> ledger" where
  "demo_ledger c d =
     \<lparr>consensus = c, chain_list = [], nodes = {}, difficulty = d, private_key = 7, disk = Absent\<rparr>"

definition demo_node :: "consensus_mode \<Rightarrow> int \<Rightarrow> pydict list \<Rightarrow> ledger" where
  "demo_node c d ch =
     \<lparr>consensus = c, chain_list = ch, nodes = {}, difficulty = d, private_key = 7,
      disk = Content (chain_json ch)\<rparr>"

definition tx1 :: pydict where
  "tx1 = [(''event'', JStr ''tx1'')]"

definition poa_genesis :: pydict where
  "poa_genesis =
     [(''index'', JInt 1), (''timestamp'', JInt 1000), (''data'', JObj genesis_data),
      (''merkle_root'', JStr ''03''), (''previous_hash'', JStr ''0''), (''hash'', JStr ''1e''),
      (''nonce'', JInt 0), (''difficulty'', JInt 0), (''consensus'', JStr ''poa''),
      (''signature'', JStr ''PEM7:03''), (''public_key'', JStr ''PEM7''),
      (''authority_id'', JStr ''19'')]"

definition poa_block2 :: pydict where
  "poa_block2 =
     [(''index'', JInt 2), (''timestamp'', JInt 1001), (''data'', JObj tx1),
      (''merkle_root'', JStr ''19''), (''previous_hash'', JStr ''1e''), (''hash'', JStr ''0c''),
      (''nonce'', JInt 0), (''difficulty'', JInt 0), (''consensus'', JStr ''poa''),
      (''signature'', JStr ''PEM7:19''), (''public_key'', JStr ''PEM7''),
      (''authority_id'', JStr ''19'')]"

definition pow_genesis :: pydict where
  "pow_genesis =
     [(''index'', JInt 1), (''timestamp'', JInt 1999), (''data'', JObj genesis_data),
      (''merkle_root'', JStr ''03''), (''previous_hash'', JStr ''0''), (''hash'', JStr ''00''),
      (''nonce'', JInt 1), (''difficulty'', JInt 1), (''consensus'', JStr ''pow''),
      (''signature'', JStr ''PEM7:03''), (''public_key'', JStr ''PEM7'')]"

definition pow_block2 :: pydict where
  "pow_block2 =
     [(''index'', JInt 2), (''timestamp'', JInt 2002), (''data'', JObj tx1),
      (''merkle_root'', JStr ''19''), (''previous_hash'', JStr ''00''), (''hash'', JStr ''00''),
      (''nonce'', JInt 2), (''difficulty'', JInt 2), (''consensus'', JStr ''pow''),
      (''signature'', JStr ''PEM7:19''), (''public_key'', JStr ''PEM7'')]"

subsection \<open>The parts of block creation\<close>

text \<open>
  The dict literal of \<^verbatim>\<open>create_block\<close>, the hash of the last block it reads, and the
  prefix \<^verbatim>\<open>"0" * difficulty\<close>, named so that the properties can speak of them.
\<close>

definition new_block :: "prims \<Rightarrow> ledger \<Rightarrow> pydict \<Rightarrow> int \<Rightarrow> nat \<Rightarrow> json \<Rightarrow> int \<Rightarrow> int \<Rightarrow> string \<Rightarrow> string option \<Rightarrow> pydict" where
  "new_block P w data now salt previous_hash nonce dif block_hash authority =
     [(''index'', JInt (int (length (chain_list w)) + 1)),
      (''timestamp'', JInt now),
      (''data'', JObj data),
      (''merkle_root'', JStr (calculate_merkle_root P data)),
      (''previous_hash'', previous_hash),
      (''hash'', JStr block_hash),
      (''nonce'', JInt nonce),
      (''difficulty'', JInt dif),
      (''consensus'', JStr (consensus_tag (consensus w))),
      (''signature'', JStr (sign_data P w data salt)),
      (''public_key'', JStr (public_pem P (private_key w)))]
     @ (case authority of None \<Rightarrow> [] | Some a \<Rightarrow> [(''authority_id'', JStr a)])"

definition last_hash :: "ledger \<Rightarrow> error + json" where
  "last_hash w = (if chain_list w \<noteq> [] then dict_item (last (chain_list w)) ''hash'' else Inr (JStr ''0''))"

definition zeros :: "int \<Rightarrow> string" where
  "zeros d = replicate (nat d) CHR ''0''"

text \<open>
  The shape of a chain the node has built: block \<open>i\<close> (from 0) has index \<open>i + 1\<close>, holds a
  hash, and names the hash of the block before it, the first block naming \<open>"0"\<close>.
\<close>

definition chain_shape :: "pydict list \<Rightarrow> bool" where
  "chain_shape c =
     (\<forall>i<length c. dict_get (c ! i) ''index'' = JInt (int i + 1)
        \<and> dict_has (c ! i) ''hash''
        \<and> dict_get (c ! i) ''previous_hash'' = (if i = 0 then JStr ''0'' else dict_get (c ! (i - 1)) ''hash''))"

text \<open>What the mode of the node makes of the nonce, the difficulty, the hash and the authority id.\<close>

definition sealed :: "prims \<Rightarrow> ledger \<Rightarrow> pydict \<Rightarrow> int \<Rightarrow> json \<Rightarrow> int \<Rightarrow> int \<Rightarrow> string \<Rightarrow> string option \<Rightarrow> bool" where
  "sealed P w data now prev nonce dif h a =
     (case consensus w of
        PoW \<Rightarrow> h = compute_pow_hash P prev now (JStr (calculate_merkle_root P data)) nonce
                \<and> startswith h (zeros dif) \<and> a = None
      | PoA \<Rightarrow> (\<exists>x. a = Some x
                \<and> h = compute_poa_hash P prev now (JStr (calculate_merkle_root P data)) (JStr x)))"

text \<open>Every block satisfies the invariant of the data model.\<close>

definition chain_invariant :: "prims \<Rightarrow> pydict list \<Rightarrow> bool" where
  "chain_invariant P c = (\<forall>i<length c. block_invariant P (prev_block c i) (c ! i))"

text \<open>
  A single block with no signature whose hash is the Proof-of-Authority digest over its
  own \<^verbatim>\<open>previous_hash\<close> \<open>p\<close>, and the same block without a \<^verbatim>\<open>previous_hash\<close>.
\<close>

definition lone_block :: "prims \<Rightarrow> string \<Rightarrow> int \<Rightarrow> pydict \<Rightarrow> pydict" where
  "lone_block P p t d =
     [(''timestamp'', JInt t), (''data'', JObj d),
      (''merkle_root'', JStr (calculate_merkle_root P d)),
      (''previous_hash'', JStr p),
      (''hash'', JStr (compute_poa_hash P (JStr p) t (JStr (calculate_merkle_root P d)) (JStr [])))]"

definition unlinked_block :: "prims \<Rightarrow> int \<Rightarrow> pydict \<Rightarrow> pydict" where
  "unlinked_block P t d =
     [(''timestamp'', JInt t), (''data'', JObj d),
      (''merkle_root'', JStr (calculate_merkle_root P d)),
      (''hash'', JStr (compute_poa_hash P (JStr []) t (JStr (calculate_merkle_root P d)) (JStr [])))]"

text \<open>
  A block without a tag whose hash is the Proof-of-Work digest of its own fields and
  whose difficulty is \<open>2^63\<close>.
\<close>

definition oversized_block :: "prims \<Rightarrow> int \<Rightarrow> pydict \<Rightarrow> pydict" where
  "oversized_block P t d =
     [(''timestamp'', JInt t), (''data'', JObj d),
      (''merkle_root'', JStr (calculate_merkle_root P d)),
      (''hash'', JStr (compute_pow_hash P (JStr []) t (JStr (calculate_merkle_root P d)) 0)),
      (''difficulty'', JInt (2 ^ 63))]"

text \<open>
  The mode the validator takes for a block of difficulty \<open>d\<close>, and the digest it
  recomputes for the block from the numbers \<open>t\<close>, \<open>n\<close>, \<open>d\<close> it read; \<open>validator_digest\<close>
  is that digest with the block's own numbers, \<open>None\<close> when a number does not convert.
\<close>

definition block_tag :: "pydict \<Rightarrow> int \<Rightarrow> json" where
  "block_tag b d = dict_get_default b ''consensus'' (JStr (if 0 < d then ''pow'' else ''poa''))"

definition block_digest :: "prims \<Rightarrow> pydict \<Rightarrow> int \<Rightarrow> int \<Rightarrow> int \<Rightarrow> string" where
  "block_digest P b t n d =
     (if block_tag b d = JStr ''pow''
      then compute_pow_hash P (dict_get_default b ''previous_hash'' (JStr [])) t
             (dict_get_default b ''merkle_root'' (JStr [])) n
      else compute_poa_hash P (dict_get_default b ''previous_hash'' (JStr [])) t
             (dict_get_default b ''merkle_root'' (JStr [])) (dict_get_default b ''authority_id'' (JStr [])))"

definition validator_digest :: "prims \<Rightarrow> pydict \<Rightarrow> string option" where
  "validator_digest P b =
     (case numeric_fields P b of None \<Rightarrow> None | Some (t, n, d) \<Rightarrow> Some (block_digest P b t n d))"

text \<open>One payload written with its keys, and the keys of its nested dict, in two orders.\<close>

definition payload_ab :: pydict where
  "payload_ab = [(''a'', JInt 1), (''b'', JObj [(''x'', JNull), (''y'', JList [JBool True])])]"

definition payload_ba :: pydict where
  "payload_ba = [(''b'', JObj [(''y'', JList [JBool True]), (''x'', JNull)]), (''a'', JInt 1)]"

text \<open>The ledger \<^verbatim>\<open>__init__\<close> starts from, before it looks at the store.\<close>

definition initial_ledger :: "string \<Rightarrow> int option \<Rightarrow> nat \<Rightarrow> chain_file \<Rightarrow> ledger" where
  "initial_ledger consensus_arg difficulty_arg key f =
     \<lparr>consensus = (if consensus_arg = ''pow'' then PoW else PoA),
      chain_list = [],
      nodes = {},
      difficulty = (case difficulty_arg of None \<Rightarrow> DEFAULT_DIFFICULTY | Some d \<Rightarrow> d),
      private_key = key,
      disk = f\<rparr>"

section \<open>Properties\<close>

subsection \<open>Comparisons with a string\<close>

lemma canon_eq_JStr: "(canon x = JStr s) = (x = JStr s)"
  by (cases x) auto

lemma py_eq_JStr_right: "py_eq x (JStr s) = (x = JStr s)"
  by (simp add: py_eq_def canon_eq_JStr)

lemma py_eq_JStr_left: "py_eq (JStr s) x = (x = JStr s)"
  using canon_eq_JStr [of x s] by (auto simp: py_eq_def)

lemma py_eq_refl: "py_eq x x"
  by (simp add: py_eq_def)

subsection \<open>Validation of a list of dicts\<close>

lemma check_blocks_typed: "(check_blocks P prev (map JObj ds) = Inr True) = blocks_ok P prev ds"
  by (induction ds arbitrary: prev) (auto split: sum.splits)

lemma is_valid_chain_dicts:
  "is_valid_chain P (chain_json ds) = (if ds = [] then Inr False else check_blocks P None (map JObj ds))"
  by (simp add: is_valid_chain_def chain_json_def)

lemma is_valid_chain_typed:
  "(is_valid_chain P (chain_json ds) = Inr True) = (ds \<noteq> [] \<and> blocks_ok P None ds)"
  by (simp add: is_valid_chain_dicts check_blocks_typed)

text \<open>The loop stops at the first block that does not pass, with what its check gave.\<close>

lemma check_blocks_stops:
  assumes "blocks_ok P prev xs"
    and "check_block P (if xs = [] then prev else Some (last xs)) b = r" and "r \<noteq> Inr True"
  shows "check_blocks P prev (map JObj (xs @ b # ys)) = r"
  using assms
proof (induction xs arbitrary: prev)
  case Nil
  then show ?case by (cases r) auto
next
  case (Cons x xs)
  from Cons.prems have "check_block P prev x = Inr True" "blocks_ok P (Some x) xs"
    "check_block P (if xs = [] then Some x else Some (last xs)) b = r"
    by (simp_all split: if_splits)
  with Cons.IH [of "Some x"] Cons.prems(3) show ?case by simp
qed

subsection \<open>The read helper\<close>

lemma recent_positive:
  "0 < limit \<Longrightarrow> recent w limit = drop (length (chain_list w) - nat limit) (chain_list w)"
  by (auto simp: recent_def py_slice_from_def Let_def max_def nat_diff_distrib'
           intro!: arg_cong2 [where f = drop])

text \<open>
  Claim C9. For a positive limit \<^verbatim>\<open>recent\<close> returns the last \<open>limit\<close> blocks
  (\<open>recent_positive\<close>). For the limit 0 the slice \<^verbatim>\<open>self.chain[-0:]\<close> is the whole
  chain, not the empty list of the last 0 blocks.
\<close>

theorem recent_zero_is_whole_chain: "recent w 0 = chain_list w"
  by (simp add: recent_def py_slice_from_def)

subsection \<open>The Proof-of-Work loop\<close>

lemma pow_loop_found:
  "startswith (digest n) pre \<Longrightarrow> pow_loop digest pre n = Some (n, digest n)"
  by (subst pow_loop.simps) simp

lemma pow_loop_step:
  "\<not> startswith (digest n) pre \<Longrightarrow> pow_loop digest pre n = pow_loop digest pre (n + 1)"
  by (subst pow_loop.simps) simp

lemma pow_loop_sound:
  assumes "pow_loop digest pre n = Some y"
  shows "n \<le> fst y \<and> snd y = digest (fst y) \<and> startswith (snd y) pre
     \<and> (\<forall>j. n \<le> j \<and> j < fst y \<longrightarrow> \<not> startswith (digest j) pre)"
proof (rule pow_loop.raw_induct
    [where P = "\<lambda>digest pre n y. n \<le> fst y \<and> snd y = digest (fst y) \<and> startswith (snd y) pre
       \<and> (\<forall>j. n \<le> j \<and> j < fst y \<longrightarrow> \<not> startswith (digest j) pre)", OF _ assms])
  fix loop :: "(int \<Rightarrow> string) \<Rightarrow> string \<Rightarrow> int \<Rightarrow> (int \<times> string) option"
    and digest pre nonce y
  assume IH: "\<And>digest pre nonce y. loop digest pre nonce = Some y \<Longrightarrow>
      nonce \<le> fst y \<and> snd y = digest (fst y) \<and> startswith (snd y) pre
      \<and> (\<forall>j. nonce \<le> j \<and> j < fst y \<longrightarrow> \<not> startswith (digest j) pre)"
    and eq: "(if startswith (digest nonce) pre then Some (nonce, digest nonce)
              else loop digest pre (nonce + 1)) = Some y"
  show "nonce \<le> fst y \<and> snd y = digest (fst y) \<and> startswith (snd y) pre
      \<and> (\<forall>j. nonce \<le> j \<and> j < fst y \<longrightarrow> \<not> startswith (digest j) pre)"
  proof (cases "startswith (digest nonce) pre")
    case True
    with eq show ?thesis by auto
  next
    case False
    with eq have "loop digest pre (nonce + 1) = Some y" by simp
    from IH [OF this] have *: "nonce + 1 \<le> fst y" "snd y = digest (fst y)" "startswith (snd y) pre"
      "\<And>j. nonce + 1 \<le> j \<Longrightarrow> j < fst y \<Longrightarrow> \<not> startswith (digest j) pre"
      by auto
    have "\<not> startswith (digest j) pre" if "nonce \<le> j" "j < fst y" for j
    proof (cases "j = nonce")
      case True
      with False show ?thesis by simp
    next
      case False
      with that have "nonce + 1 \<le> j" by simp
      with *(4) that show ?thesis by blast
    qed
    with * show ?thesis by auto
  qed
qed

lemma pow_loop_complete:
  "n \<le> m \<Longrightarrow> startswith (digest m) pre \<Longrightarrow> \<exists>y. pow_loop digest pre n = Some y"
proof (induction "nat (m - n)" arbitrary: n)
  case 0
  then have "n = m" by simp
  with 0 show ?case by (auto simp: pow_loop_found)
next
  case (Suc k)
  show ?case
  proof (cases "startswith (digest n) pre")
    case True
    then show ?thesis by (auto simp: pow_loop_found)
  next
    case False
    from Suc(2) have "k = nat (m - (n + 1))" by simp
    moreover from Suc(2) have "n + 1 \<le> m" by simp
    ultimately have "\<exists>y. pow_loop digest pre (n + 1) = Some y"
      using Suc(1) Suc(4) by blast
    with False show ?thesis by (simp add: pow_loop_step)
  qed
qed

lemma pow_loop_diverges:
  "(\<forall>j\<ge>n. \<not> startswith (digest j) pre) \<Longrightarrow> pow_loop digest pre n = None"
  using pow_loop_sound [of digest pre n] by (cases "pow_loop digest pre n") auto

lemma startswith_Nil: "startswith s []"
  by (simp add: startswith_def)

subsection \<open>What block creation returns\<close>

lemma create_block_PoW:
  assumes "consensus w = PoW"
  shows "create_block P w data now salt =
     (case last_hash w of
        Inl e \<Rightarrow> Raises e
      | Inr prev \<Rightarrow>
          (case pow_loop (compute_pow_hash P prev now (JStr (calculate_merkle_root P data))) (zeros (difficulty w)) 0 of
             None \<Rightarrow> Diverges
           | Some (nonce, h) \<Rightarrow>
               Returns (new_block P w data now salt prev nonce (difficulty w) h None,
                        w\<lparr>chain_list := chain_list w @ [new_block P w data now salt prev nonce (difficulty w) h None],
                          disk := Content (chain_json (chain_list w @ [new_block P w data now salt prev nonce (difficulty w) h None]))\<rparr>)))"
  using assms
  by (simp add: create_block_def last_hash_def new_block_def zeros_def save_chain_def Let_def
           split: sum.splits option.splits prod.splits)

lemma create_block_PoA:
  assumes "consensus w = PoA"
  shows "create_block P w data now salt =
     (case last_hash w of
        Inl e \<Rightarrow> Raises e
      | Inr prev \<Rightarrow>
          (let h = compute_poa_hash P prev now (JStr (calculate_merkle_root P data)) (JStr (authority_id P w));
               b = new_block P w data now salt prev 0 0 h (Some (authority_id P w))
           in Returns (b, w\<lparr>chain_list := chain_list w @ [b],
                          disk := Content (chain_json (chain_list w @ [b]))\<rparr>)))"
  using assms
  by (simp add: create_block_def last_hash_def new_block_def save_chain_def Let_def
           split: sum.splits option.splits prod.splits)

lemma new_block_fields:
  "dict_get (new_block P w data now salt prev nonce dif h a) ''index'' = JInt (int (length (chain_list w)) + 1)"
  "dict_get (new_block P w data now salt prev nonce dif h a) ''timestamp'' = JInt now"
  "dict_get (new_block P w data now salt prev nonce dif h a) ''data'' = JObj data"
  "dict_get (new_block P w data now salt prev nonce dif h a) ''merkle_root'' = JStr (calculate_merkle_root P data)"
  "dict_get (new_block P w data now salt prev nonce dif h a) ''previous_hash'' = prev"
  "dict_get (new_block P w data now salt prev nonce dif h a) ''hash'' = JStr h"
  "dict_get (new_block P w data now salt prev nonce dif h a) ''nonce'' = JInt nonce"
  "dict_get (new_block P w data now salt prev nonce dif h a) ''difficulty'' = JInt dif"
  "dict_get (new_block P w data now salt prev nonce dif h a) ''consensus'' = JStr (consensus_tag (consensus w))"
  "dict_get (new_block P w data now salt prev nonce dif h a) ''signature'' = JStr (sign_data P w data salt)"
  "dict_get (new_block P w data now salt prev nonce dif h a) ''public_key'' = JStr (public_pem P (private_key w))"
  "dict_get (new_block P w data now salt prev nonce dif h a) ''authority_id'' = (case a of None \<Rightarrow> JNull | Some x \<Rightarrow> JStr x)"
  by (simp_all add: new_block_def dict_get_def dict_get_default_def split: option.splits)

lemma last_hash_ok:
  "chain_list w = [] \<or> dict_has (last (chain_list w)) ''hash'' \<Longrightarrow> \<exists>prev. last_hash w = Inr prev"
  by (auto simp: last_hash_def dict_item_def dict_has_def split: option.splits)

text \<open>
  Claim C5. A block that \<^verbatim>\<open>create_block\<close> returns in Proof-of-Work mode records the
  node's difficulty and a hash that is the digest at the recorded nonce and starts with
  that many \<open>0\<close> characters; the nonce is the least one from 0 upwards with this
  property, and it is 0 when the difficulty is 0 (or negative). A block returned in
  Proof-of-Authority mode records difficulty 0, nonce 0 and the authority id, which is
  the first 16 characters of the digest of the public key's PEM text, and its hash is the
  digest over that id. In Proof-of-Authority mode, and at difficulty 0, the call returns
  (the last block of a non-empty chain holding a hash).
\<close>

theorem create_block_consensus_fields:
  "(create_block P w data now salt = Returns (b, w') \<and> consensus w = PoW \<longrightarrow>
      (\<exists>n h. dict_get b ''nonce'' = JInt n \<and> dict_get b ''hash'' = JStr h
         \<and> dict_get b ''difficulty'' = JInt (difficulty w) \<and> 0 \<le> n
         \<and> h = compute_pow_hash P (dict_get b ''previous_hash'') now (dict_get b ''merkle_root'') n
         \<and> startswith h (replicate (nat (difficulty w)) CHR ''0'')
         \<and> (\<forall>j. 0 \<le> j \<and> j < n \<longrightarrow>
               \<not> startswith (compute_pow_hash P (dict_get b ''previous_hash'') now (dict_get b ''merkle_root'') j)
                   (replicate (nat (difficulty w)) CHR ''0''))
         \<and> (difficulty w \<le> 0 \<longrightarrow> n = 0)))
   \<and> (create_block P w data now salt = Returns (b, w') \<and> consensus w = PoA \<longrightarrow>
        dict_get b ''difficulty'' = JInt 0 \<and> dict_get b ''nonce'' = JInt 0
        \<and> dict_has b ''authority_id''
        \<and> dict_get b ''authority_id'' = JStr (take 16 (sha256_hex P (public_pem P (private_key w))))
        \<and> dict_get b ''hash'' = JStr (compute_poa_hash P (dict_get b ''previous_hash'') now
                                       (dict_get b ''merkle_root'') (dict_get b ''authority_id'')))
   \<and> ((consensus w = PoA \<or> difficulty w \<le> 0)
        \<and> (chain_list w = [] \<or> dict_has (last (chain_list w)) ''hash'') \<longrightarrow>
        (\<exists>b w'. create_block P w data now salt = Returns (b, w')))"
proof -
  have A: "(create_block P w data now salt = Returns (b, w') \<and> consensus w = PoW \<longrightarrow>
      (\<exists>n h. dict_get b ''nonce'' = JInt n \<and> dict_get b ''hash'' = JStr h
         \<and> dict_get b ''difficulty'' = JInt (difficulty w) \<and> 0 \<le> n
         \<and> h = compute_pow_hash P (dict_get b ''previous_hash'') now (dict_get b ''merkle_root'') n
         \<and> startswith h (replicate (nat (difficulty w)) CHR ''0'')
         \<and> (\<forall>j. 0 \<le> j \<and> j < n \<longrightarrow>
               \<not> startswith (compute_pow_hash P (dict_get b ''previous_hash'') now (dict_get b ''merkle_root'') j)
                   (replicate (nat (difficulty w)) CHR ''0''))
         \<and> (difficulty w \<le> 0 \<longrightarrow> n = 0)))"
  proof (rule impI)
  assume a: "create_block P w data now salt = Returns (b, w') \<and> consensus w = PoW"
  then obtain prev n h where
    loop: "pow_loop (compute_pow_hash P prev now (JStr (calculate_merkle_root P data))) (zeros (difficulty w)) 0 = Some (n, h)"
    and b: "b = new_block P w data now salt prev n (difficulty w) h None"
    by (auto simp: create_block_PoW split: sum.splits option.splits)
  from pow_loop_sound [OF loop]
  have s: "0 \<le> n" "h = compute_pow_hash P prev now (JStr (calculate_merkle_root P data)) n"
    "startswith h (zeros (difficulty w))"
    "\<And>j. 0 \<le> j \<Longrightarrow> j < n \<Longrightarrow>
       \<not> startswith (compute_pow_hash P prev now (JStr (calculate_merkle_root P data)) j) (zeros (difficulty w))"
    by auto
  have z: "n = 0" if "difficulty w \<le> 0"
  proof -
    from that have "zeros (difficulty w) = []" by (simp add: zeros_def)
    then have "pow_loop (compute_pow_hash P prev now (JStr (calculate_merkle_root P data))) (zeros (difficulty w)) 0
                 = Some (0, compute_pow_hash P prev now (JStr (calculate_merkle_root P data)) 0)"
      by (intro pow_loop_found) (simp add: startswith_def)
    with loop show ?thesis by simp
  qed
  show "\<exists>n h. dict_get b ''nonce'' = JInt n \<and> dict_get b ''hash'' = JStr h
         \<and> dict_get b ''difficulty'' = JInt (difficulty w) \<and> 0 \<le> n
         \<and> h = compute_pow_hash P (dict_get b ''previous_hash'') now (dict_get b ''merkle_root'') n
         \<and> startswith h (replicate (nat (difficulty w)) CHR ''0'')
         \<and> (\<forall>j. 0 \<le> j \<and> j < n \<longrightarrow>
               \<not> startswith (compute_pow_hash P (dict_get b ''previous_hash'') now (dict_get b ''merkle_root'') j)
                   (replicate (nat (difficulty w)) CHR ''0''))
         \<and> (difficulty w \<le> 0 \<longrightarrow> n = 0)"
    using s z unfolding b new_block_fields zeros_def by blast
  qed
  have B: "(create_block P w data now salt = Returns (b, w') \<and> consensus w = PoA \<longrightarrow>
        dict_get b ''difficulty'' = JInt 0 \<and> dict_get b ''nonce'' = JInt 0
        \<and> dict_has b ''authority_id''
        \<and> dict_get b ''authority_id'' = JStr (take 16 (sha256_hex P (public_pem P (private_key w))))
        \<and> dict_get b ''hash'' = JStr (compute_poa_hash P (dict_get b ''previous_hash'') now
                                       (dict_get b ''merkle_root'') (dict_get b ''authority_id'')))"
  proof (rule impI)
  assume a: "create_block P w data now salt = Returns (b, w') \<and> consensus w = PoA"
  then obtain prev where
    b: "b = new_block P w data now salt prev 0 0
              (compute_poa_hash P prev now (JStr (calculate_merkle_root P data)) (JStr (authority_id P w)))
              (Some (authority_id P w))"
    by (auto simp: create_block_PoA Let_def split: sum.splits)
  show "dict_get b ''difficulty'' = JInt 0 \<and> dict_get b ''nonce'' = JInt 0
        \<and> dict_has b ''authority_id''
        \<and> dict_get b ''authority_id'' = JStr (take 16 (sha256_hex P (public_pem P (private_key w))))
        \<and> dict_get b ''hash'' = JStr (compute_poa_hash P (dict_get b ''previous_hash'') now
                                       (dict_get b ''merkle_root'') (dict_get b ''authority_id''))"
    unfolding b new_block_fields by (simp add: authority_id_def new_block_def dict_has_def)
  qed
  have C: "((consensus w = PoA \<or> difficulty w \<le> 0)
        \<and> (chain_list w = [] \<or> dict_has (last (chain_list w)) ''hash'') \<longrightarrow>
        (\<exists>b w'. create_block P w data now salt = Returns (b, w')))"
  proof (rule impI)
  assume a: "(consensus w = PoA \<or> difficulty w \<le> 0)
        \<and> (chain_list w = [] \<or> dict_has (last (chain_list w)) ''hash'')"
  then obtain prev where p: "last_hash w = Inr prev"
    using last_hash_ok by blast
  show "\<exists>b w'. create_block P w data now salt = Returns (b, w')"
  proof (cases "consensus w")
    case PoA
    with p show ?thesis by (simp add: create_block_PoA Let_def)
  next
    case PoW
    with a have "difficulty w \<le> 0" by auto
    then have "zeros (difficulty w) = []" by (simp add: zeros_def)
    then have "pow_loop (compute_pow_hash P prev now (JStr (calculate_merkle_root P data))) (zeros (difficulty w)) 0
                 = Some (0, compute_pow_hash P prev now (JStr (calculate_merkle_root P data)) 0)"
      by (intro pow_loop_found) (simp add: startswith_def)
    with PoW p show ?thesis
      by (simp add: create_block_PoW)
  qed
qed
  show ?thesis
    by (rule conjI [OF A conjI [OF B C]])
qed

subsection \<open>The small instance computes the demo blocks\<close>

lemma demo_digests_fit: "digests_fit demo"
  by (simp add: digests_fit_def demo_def demo_sha_def Let_def)

lemma demo_sig_correct: "sig_correct demo"
  by (simp add: sig_correct_def demo_def)

lemma demo_merkle:
  "calculate_merkle_root demo genesis_data = ''03''"
  "calculate_merkle_root demo tx1 = ''19''"
  by (simp_all add: calculate_merkle_root_def demo_def demo_sha_def hexdigit_def genesis_data_def tx1_def)

lemma demo_sign:
  "sign_data demo (demo_ledger c d) genesis_data r = ''PEM7:03''"
  "sign_data demo (demo_node c d ch) genesis_data r = ''PEM7:03''"
  "sign_data demo (demo_node c d ch) tx1 r = ''PEM7:19''"
  "sign_data demo (demo_node c d ch\<lparr>difficulty := d'\<rparr>) tx1 r = ''PEM7:19''"
  by (simp_all add: sign_data_def demo_def demo_sha_def hexdigit_def genesis_data_def tx1_def
        demo_ledger_def demo_node_def digit_char_def)

lemma demo_pem: "public_pem demo 7 = ''PEM7''"
  by (simp add: demo_def digit_char_def)

lemma demo_authority:
  "authority_id demo (demo_ledger c d) = ''19''"
  "authority_id demo (demo_node c d ch) = ''19''"
  by (simp_all add: authority_id_def demo_ledger_def demo_node_def demo_def demo_sha_def hexdigit_def
        digit_char_def)

lemma demo_poa_digest:
  "compute_poa_hash demo (JStr ''0'') 1000 (JStr ''03'') (JStr ''19'') = ''1e''"
  "compute_poa_hash demo (JStr ''1e'') 1001 (JStr ''19'') (JStr ''19'') = ''0c''"
  by (simp_all add: compute_poa_hash_def demo_def demo_sha_def hexdigit_def str_int_def digit_char_def)

lemma demo_pow_digest:
  "compute_pow_hash demo (JStr ''0'') 1999 (JStr ''03'') 0 = ''1f''"
  "compute_pow_hash demo (JStr ''0'') 1999 (JStr ''03'') 1 = ''00''"
  "compute_pow_hash demo (JStr ''00'') 2002 (JStr ''19'') 0 = ''1e''"
  "compute_pow_hash demo (JStr ''00'') 2002 (JStr ''19'') 1 = ''1f''"
  "compute_pow_hash demo (JStr ''00'') 2002 (JStr ''19'') 2 = ''00''"
  by (simp_all add: compute_pow_hash_def demo_def demo_sha_def hexdigit_def str_int_def digit_char_def)

lemma demo_pow_loop:
  "pow_loop (compute_pow_hash demo (JStr ''0'') 1999 (JStr ''03'')) ''0'' 0 = Some (1, ''00'')"
  "pow_loop (compute_pow_hash demo (JStr ''00'') 2002 (JStr ''19'')) ''00'' 0 = Some (2, ''00'')"
  by (simp_all add: pow_loop_found pow_loop_step demo_pow_digest startswith_def)

lemma demo_fields:
  "consensus (demo_ledger c d) = c" "chain_list (demo_ledger c d) = []"
  "private_key (demo_ledger c d) = 7" "difficulty (demo_ledger c d) = d"
  "consensus (demo_node c d ch) = c" "chain_list (demo_node c d ch) = ch"
  "private_key (demo_node c d ch) = 7" "difficulty (demo_node c d ch) = d"
  "disk (demo_node c d ch) = Content (chain_json ch)"
  by (simp_all add: demo_ledger_def demo_node_def)

lemma demo_updates:
  "demo_ledger c d\<lparr>chain_list := ch, disk := Content (chain_json ch)\<rparr> = demo_node c d ch"
  "demo_node c d ch0\<lparr>chain_list := ch, disk := Content (chain_json ch)\<rparr> = demo_node c d ch"
  "demo_node c d ch\<lparr>difficulty := d'\<rparr> = demo_node c d' ch"
  "demo_ledger c d\<lparr>chain_list := []\<rparr> = demo_ledger c d"
  "save_chain (demo_node c d ch) = demo_node c d ch"
  by (simp_all add: demo_ledger_def demo_node_def save_chain_def)

lemma demo_last_hash:
  "dict_item poa_genesis ''hash'' = Inr (JStr ''1e'')"
  "dict_item pow_genesis ''hash'' = Inr (JStr ''00'')"
  by (simp_all add: dict_item_def poa_genesis_def pow_genesis_def)

lemmas demo_create =
  last_hash_def new_block_def zeros_def demo_fields demo_updates demo_last_hash demo_merkle demo_sign
  demo_pem demo_authority demo_poa_digest demo_pow_loop Let_def

lemma demo_poa_create:
  "create_block demo (demo_ledger PoA 4) genesis_data 1000 0
     = Returns (poa_genesis, demo_node PoA 4 [poa_genesis])"
  by (simp add: create_block_PoA demo_create) (simp add: poa_genesis_def)

lemma demo_poa_fresh:
  "init_fresh_chain demo (demo_ledger PoA 4) 1000 0 = Returns (demo_node PoA 4 [poa_genesis])"
  by (simp add: init_fresh_chain_def create_genesis_block_def demo_updates demo_poa_create)

lemma demo_poa_store:
  "store_evaluation demo (demo_node PoA 4 [poa_genesis]) tx1 1001 0
     = Returns (poa_block2, demo_node PoA 4 [poa_genesis, poa_block2])"
  unfolding store_evaluation_def
  by (simp add: create_block_PoA demo_create) (simp add: poa_block2_def)

lemma demo_pow_create:
  "create_block demo (demo_ledger PoW 1) genesis_data 1999 0
     = Returns (pow_genesis, demo_node PoW 1 [pow_genesis])"
  by (simp add: create_block_PoW demo_create) (simp add: pow_genesis_def)

lemma demo_pow_fresh:
  "init_fresh_chain demo (demo_ledger PoW 1) 1999 0 = Returns (demo_node PoW 1 [pow_genesis])"
  by (simp add: init_fresh_chain_def create_genesis_block_def demo_updates demo_pow_create)

lemma demo_pow_store:
  "create_block demo (demo_node PoW 2 [pow_genesis]) tx1 2002 0
     = Returns (pow_block2, demo_node PoW 2 [pow_genesis, pow_block2])"
  by (simp add: create_block_PoW demo_create numeral_2_eq_2) (simp add: pow_block2_def)

theorem create_block_consensus_fields_witness:
  "create_block demo (demo_node PoW 2 [pow_genesis]) tx1 2002 0
     = Returns (pow_block2, demo_node PoW 2 [pow_genesis, pow_block2])
   \<and> consensus (demo_node PoW 2 [pow_genesis]) = PoW
   \<and> (\<exists>n h. dict_get pow_block2 ''nonce'' = JInt n \<and> dict_get pow_block2 ''hash'' = JStr h
          \<and> 0 \<le> n \<and> startswith h (replicate (nat (difficulty (demo_node PoW 2 [pow_genesis]))) CHR ''0''))
   \<and> create_block demo (demo_ledger PoA 4) genesis_data 1000 0
       = Returns (poa_genesis, demo_node PoA 4 [poa_genesis])
   \<and> consensus (demo_ledger PoA 4) = PoA
   \<and> dict_get poa_genesis ''difficulty'' = JInt 0 \<and> dict_has poa_genesis ''authority_id''"
proof -
  have c: "consensus (demo_node PoW 2 [pow_genesis]) = PoW" "consensus (demo_ledger PoA 4) = PoA"
    by (simp_all add: demo_fields)
  from create_block_consensus_fields [of demo "demo_node PoW 2 [pow_genesis]" tx1 2002 0 pow_block2
      "demo_node PoW 2 [pow_genesis, pow_block2]"] demo_pow_store c(1)
  have "\<exists>n h. dict_get pow_block2 ''nonce'' = JInt n \<and> dict_get pow_block2 ''hash'' = JStr h
          \<and> 0 \<le> n \<and> startswith h (replicate (nat (difficulty (demo_node PoW 2 [pow_genesis]))) CHR ''0'')"
    by blast
  moreover
  from create_block_consensus_fields [of demo "demo_ledger PoA 4" genesis_data 1000 0 poa_genesis
      "demo_node PoA 4 [poa_genesis]"] demo_poa_create c(2)
  have "dict_get poa_genesis ''difficulty'' = JInt 0 \<and> dict_has poa_genesis ''authority_id''"
    by blast
  ultimately show ?thesis
    using demo_pow_store demo_poa_create c by blast
qed

subsection \<open>Appending keeps the shape of the chain\<close>

lemma create_block_Returns:
  assumes "create_block P w data now salt = Returns (b, w')"
  obtains prev nonce dif h a where
    "last_hash w = Inr prev"
    "b = new_block P w data now salt prev nonce dif h a"
    "w' = w\<lparr>chain_list := chain_list w @ [b], disk := Content (chain_json (chain_list w @ [b]))\<rparr>"
    "consensus w = PoW \<longrightarrow>
       pow_loop (compute_pow_hash P prev now (JStr (calculate_merkle_root P data))) (zeros (difficulty w)) 0
         = Some (nonce, h) \<and> dif = difficulty w \<and> a = None"
    "consensus w = PoA \<longrightarrow>
       nonce = 0 \<and> dif = 0 \<and> a = Some (authority_id P w)
       \<and> h = compute_poa_hash P prev now (JStr (calculate_merkle_root P data)) (JStr (authority_id P w))"
proof (cases "consensus w")
  case PoW
  with assms that show ?thesis
    by (auto simp: create_block_PoW split: sum.splits option.splits)
next
  case PoA
  with assms that show ?thesis
    by (auto simp: create_block_PoA Let_def split: sum.splits)
qed

lemma last_hash_cases:
  assumes "last_hash w = Inr prev"
  shows "prev = (if chain_list w = [] then JStr ''0'' else dict_get (last (chain_list w)) ''hash'')"
    and "chain_list w \<noteq> [] \<Longrightarrow> dict_has (last (chain_list w)) ''hash''"
  using assms
  by (auto simp: last_hash_def dict_item_def dict_get_def dict_get_default_def dict_has_def
           split: option.splits if_splits)

lemma new_block_has_hash: "dict_has (new_block P w data now salt prev nonce dif h a) ''hash''"
  by (simp add: new_block_def dict_has_def)

lemma chain_shape_snoc:
  assumes "chain_shape c"
    and "dict_get b ''index'' = JInt (int (length c) + 1)"
    and "dict_has b ''hash''"
    and "dict_get b ''previous_hash'' = (if c = [] then JStr ''0'' else dict_get (last c) ''hash'')"
  shows "chain_shape (c @ [b])"
  unfolding chain_shape_def
proof (intro allI impI)
  fix i assume "i < length (c @ [b])"
  then consider "i < length c" | "i = length c" by fastforce
  then show "dict_get ((c @ [b]) ! i) ''index'' = JInt (int i + 1)
        \<and> dict_has ((c @ [b]) ! i) ''hash''
        \<and> dict_get ((c @ [b]) ! i) ''previous_hash''
            = (if i = 0 then JStr ''0'' else dict_get ((c @ [b]) ! (i - 1)) ''hash'')"
  proof cases
    case 1
    then have "i - 1 < length c" by simp
    with 1 assms(1) show ?thesis
      by (simp add: chain_shape_def nth_append)
  next
    case 2
    show ?thesis
    proof (cases "c = []")
      case True
      with 2 assms show ?thesis by simp
    next
      case False
      then have "last c = c ! (length c - 1)" by (simp add: last_conv_nth)
      with 2 False assms show ?thesis by (simp add: nth_append)
    qed
  qed
qed

lemma create_block_shape:
  assumes "create_block P w data now salt = Returns (b, w')" and "chain_shape (chain_list w)"
  shows "chain_shape (chain_list w')" and "length (chain_list w') = Suc (length (chain_list w))"
    and "consensus w' = consensus w" and "difficulty w' = difficulty w"
proof -
  from assms(1) obtain prev nonce dif h a where
    p: "last_hash w = Inr prev" and b: "b = new_block P w data now salt prev nonce dif h a"
    and w': "w' = w\<lparr>chain_list := chain_list w @ [b], disk := Content (chain_json (chain_list w @ [b]))\<rparr>"
    by (rule create_block_Returns)
  from last_hash_cases(1) [OF p] assms(2) show "chain_shape (chain_list w')"
    unfolding w' by (simp add: chain_shape_snoc b new_block_fields new_block_has_hash)
  show "length (chain_list w') = Suc (length (chain_list w))" "consensus w' = consensus w"
    "difficulty w' = difficulty w"
    unfolding w' by simp_all
qed

lemma shape_last_hash:
  assumes "chain_shape (chain_list w)"
  shows "\<exists>prev. last_hash w = Inr prev"
proof (cases "chain_list w = []")
  case True
  then show ?thesis by (simp add: last_hash_def)
next
  case False
  then have "length (chain_list w) - 1 < length (chain_list w)" by simp
  with assms have "dict_has (chain_list w ! (length (chain_list w) - 1)) ''hash''"
    unfolding chain_shape_def by blast
  with False have "dict_has (last (chain_list w)) ''hash''" by (simp add: last_conv_nth)
  then show ?thesis using last_hash_ok by blast
qed

lemma create_block_never_raises:
  assumes "chain_shape (chain_list w)"
  shows "create_block P w data now salt \<noteq> Raises e"
proof -
  from shape_last_hash [OF assms] obtain prev where p: "last_hash w = Inr prev" ..
  show ?thesis
  proof (cases "consensus w")
    case PoW
    with p show ?thesis by (simp add: create_block_PoW split: option.splits)
  next
    case PoA
    with p show ?thesis by (simp add: create_block_PoA Let_def)
  qed
qed

lemma create_block_returns_if:
  assumes "chain_shape (chain_list w)" and "consensus w = PoA \<or> pow_solvable P (difficulty w)"
  shows "\<exists>b w'. create_block P w data now salt = Returns (b, w')"
proof (cases "create_block P w data now salt")
  case Diverges
  from shape_last_hash [OF assms(1)] obtain prev where p: "last_hash w = Inr prev" ..
  show ?thesis
  proof (cases "consensus w")
    case PoA
    with p Diverges show ?thesis by (simp add: create_block_PoA Let_def)
  next
    case PoW
    with assms(2) have "pow_solvable P (difficulty w)" by simp
    then obtain n where "0 \<le> n"
      "startswith (compute_pow_hash P prev now (JStr (calculate_merkle_root P data)) n) (zeros (difficulty w))"
      unfolding pow_solvable_def zeros_def by blast
    then have "\<exists>y. pow_loop (compute_pow_hash P prev now (JStr (calculate_merkle_root P data)))
                      (zeros (difficulty w)) 0 = Some y"
      by (intro pow_loop_complete [where m = n])
    with PoW p Diverges show ?thesis by (auto simp: create_block_PoW)
  qed
next
  case (Raises e)
  with create_block_never_raises [OF assms(1)] show ?thesis by blast
next
  case (Returns r)
  then show ?thesis by (cases r) auto
qed

subsection \<open>Appending payloads to a fresh ledger\<close>

lemma store_all_shape:
  "chain_shape (chain_list w) \<Longrightarrow> store_all P w calls = Returns w2 \<Longrightarrow>
     chain_shape (chain_list w2) \<and> length (chain_list w2) = length (chain_list w) + length calls"
proof (induction calls arbitrary: w)
  case Nil
  then show ?case by simp
next
  case (Cons call calls)
  obtain evaluation now salt where call: "call = (evaluation, now, salt)"
    by (cases call) auto
  from Cons.prems(2) obtain b w' where
    r: "create_block P w evaluation now salt = Returns (b, w')" and rest: "store_all P w' calls = Returns w2"
    by (auto simp: call store_evaluation_def split: outcome.splits)
  from create_block_shape [OF r Cons.prems(1)] Cons.IH [OF _ rest] show ?case
    by simp
qed

lemma store_all_never_raises:
  "chain_shape (chain_list w) \<Longrightarrow> store_all P w calls \<noteq> Raises e"
proof (induction calls arbitrary: w)
  case Nil
  then show ?case by simp
next
  case (Cons call calls)
  obtain evaluation now salt where call: "call = (evaluation, now, salt)"
    by (cases call) auto
  show ?case
  proof (cases "create_block P w evaluation now salt")
    case Diverges
    then show ?thesis by (simp add: call store_evaluation_def)
  next
    case (Raises e')
    with create_block_never_raises [OF Cons.prems] show ?thesis by blast
  next
    case (Returns r)
    obtain b w' where "r = (b, w')" by (cases r) auto
    with Returns create_block_shape(1) [OF _ Cons.prems] Cons.IH [of w'] show ?thesis
      by (simp add: call store_evaluation_def)
  qed
qed

lemma store_all_returns_if:
  "chain_shape (chain_list w) \<Longrightarrow> consensus w = PoA \<or> pow_solvable P (difficulty w) \<Longrightarrow>
     \<exists>w2. store_all P w calls = Returns w2"
proof (induction calls arbitrary: w)
  case Nil
  then show ?case by simp
next
  case (Cons call calls)
  obtain evaluation now salt where call: "call = (evaluation, now, salt)"
    by (cases call) auto
  from create_block_returns_if [OF Cons.prems] obtain b w' where
    r: "create_block P w evaluation now salt = Returns (b, w')" by blast
  from create_block_shape [OF r Cons.prems(1)] Cons.prems(2)
  have "chain_shape (chain_list w')" "consensus w' = PoA \<or> pow_solvable P (difficulty w')"
    by simp_all
  from Cons.IH [OF this] r show ?case
    by (simp add: call store_evaluation_def)
qed

lemma chain_shape_Nil: "chain_shape []"
  by (simp add: chain_shape_def)

lemma init_fresh_chain_Returns:
  assumes "init_fresh_chain P w now salt = Returns w1"
  obtains b where "create_block P (w\<lparr>chain_list := []\<rparr>) genesis_data now salt = Returns (b, w1)"
    "chain_list w1 = [b]"
proof -
  from assms obtain b w' where
    r: "create_block P (w\<lparr>chain_list := []\<rparr>) genesis_data now salt = Returns (b, w')"
    and w1: "w1 = save_chain w'"
    by (auto simp: init_fresh_chain_def create_genesis_block_def split: outcome.splits)
  from r obtain prev nonce dif h a where
    "w' = w\<lparr>chain_list := []\<rparr>\<lparr>chain_list := chain_list (w\<lparr>chain_list := []\<rparr>) @ [b],
            disk := Content (chain_json (chain_list (w\<lparr>chain_list := []\<rparr>) @ [b]))\<rparr>"
    by (rule create_block_Returns)
  then have "save_chain w' = w'" "chain_list w' = [b]"
    by (simp_all add: save_chain_def)
  with r w1 that show ?thesis by simp
qed

lemma init_fresh_chain_shape:
  assumes "init_fresh_chain P w now salt = Returns w1"
  shows "chain_shape (chain_list w1)" "length (chain_list w1) = 1"
    "consensus w1 = consensus w" "difficulty w1 = difficulty w"
proof -
  from assms obtain b where
    r: "create_block P (w\<lparr>chain_list := []\<rparr>) genesis_data now salt = Returns (b, w1)"
    by (rule init_fresh_chain_Returns)
  from create_block_shape [OF r] show "chain_shape (chain_list w1)" "length (chain_list w1) = 1"
    "consensus w1 = consensus w" "difficulty w1 = difficulty w"
    by (simp_all add: chain_shape_Nil)
qed

lemma init_fresh_chain_never_raises: "init_fresh_chain P w now salt \<noteq> Raises e"
  using create_block_never_raises [of "w\<lparr>chain_list := []\<rparr>" P genesis_data now salt]
  by (auto simp: init_fresh_chain_def create_genesis_block_def chain_shape_Nil split: outcome.splits)

lemma init_fresh_chain_returns_if:
  assumes "consensus w = PoA \<or> pow_solvable P (difficulty w)"
  shows "\<exists>w1. init_fresh_chain P w now salt = Returns w1"
proof -
  from assms create_block_returns_if [of "w\<lparr>chain_list := []\<rparr>" P genesis_data now salt]
  obtain b w' where "create_block P (w\<lparr>chain_list := []\<rparr>) genesis_data now salt = Returns (b, w')"
    by (auto simp: chain_shape_Nil)
  then show ?thesis
    by (simp add: init_fresh_chain_def create_genesis_block_def)
qed

text \<open>
  Claim C3. A fresh ledger followed by \<open>N\<close> calls of \<^verbatim>\<open>store_evaluation\<close> never raises.
  When it returns, the chain has \<open>N + 1\<close> blocks, block \<open>i\<close> (counted from 0) has index
  \<open>i + 1\<close>, so that the genesis block has index 1 and every other block the index of its
  predecessor plus 1, the genesis block has \<^verbatim>\<open>previous_hash\<close> \<open>"0"\<close>, and every later block
  has the hash of the block before it as its \<^verbatim>\<open>previous_hash\<close>. It returns in
  Proof-of-Authority mode, and in Proof-of-Work mode whenever every search at the node's
  difficulty has a solution.
\<close>

theorem append_n_payloads:
  "(fresh_then_store P w now salt calls = Returns w2 \<longrightarrow>
      length (chain_list w2) = length calls + 1
      \<and> (\<forall>i<length (chain_list w2). dict_get (chain_list w2 ! i) ''index'' = JInt (int i + 1))
      \<and> dict_get (chain_list w2 ! 0) ''previous_hash'' = JStr ''0''
      \<and> (\<forall>i. 0 < i \<and> i < length (chain_list w2) \<longrightarrow>
            dict_get (chain_list w2 ! i) ''previous_hash'' = dict_get (chain_list w2 ! (i - 1)) ''hash''))
   \<and> fresh_then_store P w now salt calls \<noteq> Raises e
   \<and> (consensus w = PoA \<or> pow_solvable P (difficulty w) \<longrightarrow>
        (\<exists>w2. fresh_then_store P w now salt calls = Returns w2))"
proof (intro conjI impI)
  assume r: "fresh_then_store P w now salt calls = Returns w2"
  then obtain w1 where f: "init_fresh_chain P w now salt = Returns w1"
    and s: "store_all P w1 calls = Returns w2"
    by (auto simp: fresh_then_store_def split: outcome.splits)
  from store_all_shape [OF init_fresh_chain_shape(1) [OF f] s] init_fresh_chain_shape(2) [OF f]
  have sh: "chain_shape (chain_list w2)" and len: "length (chain_list w2) = length calls + 1"
    by simp_all
  show "length (chain_list w2) = length calls + 1" by (rule len)
  from sh show "\<forall>i<length (chain_list w2). dict_get (chain_list w2 ! i) ''index'' = JInt (int i + 1)"
    by (simp add: chain_shape_def)
  from sh len show "dict_get (chain_list w2 ! 0) ''previous_hash'' = JStr ''0''"
    by (simp add: chain_shape_def)
  from sh show "\<forall>i. 0 < i \<and> i < length (chain_list w2) \<longrightarrow>
      dict_get (chain_list w2 ! i) ''previous_hash'' = dict_get (chain_list w2 ! (i - 1)) ''hash''"
    by (simp add: chain_shape_def)
next
  show "fresh_then_store P w now salt calls \<noteq> Raises e"
    using init_fresh_chain_never_raises [of P w now salt e]
      store_all_never_raises [OF init_fresh_chain_shape(1)]
    by (auto simp: fresh_then_store_def split: outcome.splits)
next
  assume a: "consensus w = PoA \<or> pow_solvable P (difficulty w)"
  from init_fresh_chain_returns_if [OF a] obtain w1 where f: "init_fresh_chain P w now salt = Returns w1"
    by blast
  from init_fresh_chain_shape [OF f] a
  have "chain_shape (chain_list w1)" "consensus w1 = PoA \<or> pow_solvable P (difficulty w1)"
    by simp_all
  from store_all_returns_if [OF this] f
  show "\<exists>w2. fresh_then_store P w now salt calls = Returns w2"
    by (simp add: fresh_then_store_def)
qed

lemma demo_poa_run:
  "fresh_then_store demo (demo_ledger PoA 4) 1000 0 [(tx1, 1001, 0)]
     = Returns (demo_node PoA 4 [poa_genesis, poa_block2])"
  by (simp add: fresh_then_store_def demo_poa_fresh demo_poa_store)

theorem append_n_payloads_witness:
  "fresh_then_store demo (demo_ledger PoA 4) 1000 0 [(tx1, 1001, 0)]
     = Returns (demo_node PoA 4 [poa_genesis, poa_block2])
   \<and> length (chain_list (demo_node PoA 4 [poa_genesis, poa_block2])) = length [(tx1, 1001::int, 0::nat)] + 1
   \<and> dict_get (chain_list (demo_node PoA 4 [poa_genesis, poa_block2]) ! 0) ''previous_hash'' = JStr ''0''
   \<and> dict_get poa_block2 ''previous_hash'' = dict_get poa_genesis ''hash''
   \<and> dict_get poa_block2 ''index'' = JInt 2"
proof -
  let ?w2 = "demo_node PoA 4 [poa_genesis, poa_block2]"
  from append_n_payloads [of demo "demo_ledger PoA 4" 1000 0 "[(tx1, 1001, 0)]" ?w2] demo_poa_run
  have *: "length (chain_list ?w2) = length [(tx1, 1001::int, 0::nat)] + 1"
    "\<forall>i<length (chain_list ?w2). dict_get (chain_list ?w2 ! i) ''index'' = JInt (int i + 1)"
    "dict_get (chain_list ?w2 ! 0) ''previous_hash'' = JStr ''0''"
    "\<forall>i. 0 < i \<and> i < length (chain_list ?w2) \<longrightarrow>
        dict_get (chain_list ?w2 ! i) ''previous_hash'' = dict_get (chain_list ?w2 ! (i - 1)) ''hash''"
    by blast+
  from *(2) [rule_format, of 1] *(4) [rule_format, of 1]
  have "dict_get poa_block2 ''index'' = JInt 2"
    "dict_get poa_block2 ''previous_hash'' = dict_get poa_genesis ''hash''"
    by (simp_all add: demo_fields)
  with * demo_poa_run show ?thesis by blast
qed

subsection \<open>A created block passes the checks\<close>

lemma dict_get_default_has: "dict_has d k \<Longrightarrow> dict_get_default d k x = dict_get d k"
  by (auto simp: dict_has_def dict_get_def dict_get_default_def)

lemma new_block_has:
  "dict_has (new_block P w data now salt prev nonce dif h a) ''timestamp''"
  "dict_has (new_block P w data now salt prev nonce dif h a) ''data''"
  "dict_has (new_block P w data now salt prev nonce dif h a) ''merkle_root''"
  "dict_has (new_block P w data now salt prev nonce dif h a) ''hash''"
  "dict_has (new_block P w data now salt prev nonce dif h a) ''previous_hash''"
  "dict_has (new_block P w data now salt prev nonce dif h a) ''nonce''"
  "dict_has (new_block P w data now salt prev nonce dif h a) ''difficulty''"
  "dict_has (new_block P w data now salt prev nonce dif h a) ''consensus''"
  "dict_has (new_block P w data now salt prev nonce dif h (Some x)) ''authority_id''"
  by (simp_all add: new_block_def dict_has_def)

lemma new_block_data: "block_data (new_block P w data now salt prev nonce dif h a) = JObj data"
  by (simp add: block_data_def dict_get_default_has new_block_has new_block_fields py_or_def)

lemma new_block_merkle:
  "calculate_merkle_for_block P (new_block P w data now salt prev nonce dif h a)
     = calculate_merkle_root P data"
  by (simp add: calculate_merkle_for_block_def calculate_merkle_root_def new_block_data)

lemma new_block_numeric:
  "numeric_fields P (new_block P w data now salt prev nonce dif h a) = Some (now, nonce, dif)"
  by (simp add: numeric_fields_def dict_get_default_has new_block_has new_block_fields)

lemma new_block_signature:
  "sig_correct P \<Longrightarrow> signature_check P (new_block P w data now salt prev nonce dif h a)"
  by (simp add: signature_check_def new_block_fields new_block_data sign_data_def sig_correct_def Let_def)

lemma new_block_verifies:
  "sig_correct P \<Longrightarrow>
     verify_signature P (dict_get (new_block P w data now salt prev nonce dif h a) ''public_key'')
       (block_data (new_block P w data now salt prev nonce dif h a))
       (dict_get (new_block P w data now salt prev nonce dif h a) ''signature'')"
  by (simp add: new_block_fields new_block_data sign_data_def sig_correct_def)

lemma consensus_tag_pow: "(consensus_tag c = ''pow'') = (c = PoW)"
  by (cases c) simp_all

text \<open>A prefix of zeros that a digest starts with can be built.\<close>

lemma repeat_zero_fits:
  assumes "digests_fit P" and "startswith (sha256_hex P s) (replicate (nat d) CHR ''0'')" and "0 < d"
  shows "repeat_zero P d = Inr (replicate (nat d) CHR ''0'')"
proof -
  from assms(2) have "length (take (nat d) (sha256_hex P s)) = nat d"
    by (simp add: startswith_def)
  then have "nat d \<le> length (sha256_hex P s)" by simp
  moreover from assms(1) have "length (sha256_hex P s) \<le> max_str P" "int (max_str P) < 2 ^ 63"
    by (simp_all add: digests_fit_def)
  ultimately have "d \<le> int (max_str P)" "d < 2 ^ 63" using assms(3) by linarith+
  with assms(3) show ?thesis
    by (simp add: repeat_zero_def)
qed

lemma new_block_consensus:
  assumes "sealed P w data now prev nonce dif h a" and "consensus w = PoW \<longrightarrow> digests_fit P"
  shows "consensus_check P (new_block P w data now salt prev nonce dif h a) now nonce dif = Inr True"
proof (cases "consensus w")
  case PoW
  with assms(2) have df: "digests_fit P" by simp
  from PoW assms(1) have h: "h = compute_pow_hash P prev now (JStr (calculate_merkle_root P data)) nonce"
    and z: "startswith h (replicate (nat dif) CHR ''0'')"
    by (auto simp: sealed_def zeros_def)
  have "repeat_zero P dif = Inr (replicate (nat dif) CHR ''0'')" if "0 < dif"
    using repeat_zero_fits [OF df _ that] z by (simp add: h compute_pow_hash_def)
  with PoW h z show ?thesis
    by (auto simp: consensus_check_def dict_get_default_has new_block_has new_block_fields
          py_eq_JStr_left py_eq_JStr_right Let_def)
next
  case PoA
  with assms obtain x where "a = Some x"
    "h = compute_poa_hash P prev now (JStr (calculate_merkle_root P data)) (JStr x)"
    by (auto simp: sealed_def)
  with PoA show ?thesis
    by (simp add: consensus_check_def dict_get_default_has new_block_has new_block_fields
          py_eq_JStr_left py_eq_JStr_right Let_def)
qed

lemma new_block_digest:
  assumes "sealed P w data now prev nonce dif h a"
  shows "recomputed_digest P (new_block P w data now salt prev nonce dif h a) = Some h"
proof (cases "consensus w")
  case PoW
  with assms show ?thesis
    by (simp add: sealed_def recomputed_digest_def new_block_fields)
next
  case PoA
  with assms show ?thesis
    by (auto simp: sealed_def recomputed_digest_def new_block_fields)
qed

lemma new_block_check:
  assumes "sig_correct P" and "sealed P w data now prev nonce dif h a"
    and "case po of None \<Rightarrow> True | Some p \<Rightarrow> prev = dict_get p ''hash''"
    and "consensus w = PoW \<longrightarrow> digests_fit P"
  shows "check_block P po (new_block P w data now salt prev nonce dif h a) = Inr True"
proof -
  have "\<not> list_ex (\<lambda>field. \<not> dict_has (new_block P w data now salt prev nonce dif h a) field) required_fields"
    by (simp add: required_fields_def new_block_has)
  moreover have "\<not> (case po of None \<Rightarrow> False
      | Some previous \<Rightarrow> \<not> py_eq (dict_get (new_block P w data now salt prev nonce dif h a) ''previous_hash'')
                            (dict_get previous ''hash''))"
    using assms(3) by (cases po) (simp_all add: new_block_fields py_eq_refl)
  moreover have "py_eq (dict_get (new_block P w data now salt prev nonce dif h a) ''merkle_root'')
      (JStr (calculate_merkle_for_block P (new_block P w data now salt prev nonce dif h a)))"
    by (simp add: new_block_fields new_block_merkle py_eq_refl)
  ultimately show ?thesis
    using new_block_consensus [OF assms(2,4)] new_block_signature [OF assms(1)]
    by (simp add: check_block_def new_block_numeric)
qed

lemma new_block_invariant:
  assumes "sig_correct P" and "sealed P w data now prev nonce dif h a"
    and "case po of None \<Rightarrow> True | Some p \<Rightarrow> prev = dict_get p ''hash''"
  shows "block_invariant P po (new_block P w data now salt prev nonce dif h a)"
proof -
  have z: "startswith h (replicate (nat d) CHR ''0'')"
    if "JStr (consensus_tag (consensus w)) = JStr ''pow''" "JInt dif = JInt d" for d
    using that assms(2) by (cases "consensus w") (auto simp: sealed_def zeros_def)
  show ?thesis
    unfolding block_invariant_def new_block_fields new_block_merkle
    using assms(3) new_block_digest [OF assms(2)] new_block_verifies [OF assms(1)] z
    by (cases po) (auto simp: new_block_fields)
qed

lemma create_block_sealed:
  assumes "create_block P w data now salt = Returns (b, w')"
  obtains prev nonce dif h a where
    "last_hash w = Inr prev"
    "b = new_block P w data now salt prev nonce dif h a"
    "w' = w\<lparr>chain_list := chain_list w @ [b], disk := Content (chain_json (chain_list w @ [b]))\<rparr>"
    "sealed P w data now prev nonce dif h a"
proof -
  from assms obtain prev nonce dif h a where
    p: "last_hash w = Inr prev" and b: "b = new_block P w data now salt prev nonce dif h a"
    and w': "w' = w\<lparr>chain_list := chain_list w @ [b], disk := Content (chain_json (chain_list w @ [b]))\<rparr>"
    and pow: "consensus w = PoW \<longrightarrow>
       pow_loop (compute_pow_hash P prev now (JStr (calculate_merkle_root P data))) (zeros (difficulty w)) 0
         = Some (nonce, h) \<and> dif = difficulty w \<and> a = None"
    and poa: "consensus w = PoA \<longrightarrow>
       nonce = 0 \<and> dif = 0 \<and> a = Some (authority_id P w)
       \<and> h = compute_poa_hash P prev now (JStr (calculate_merkle_root P data)) (JStr (authority_id P w))"
    by (rule create_block_Returns)
  have "sealed P w data now prev nonce dif h a"
  proof (cases "consensus w")
    case PoW
    from pow PoW pow_loop_sound [of "compute_pow_hash P prev now (JStr (calculate_merkle_root P data))"
        "zeros (difficulty w)" 0 "(nonce, h)"]
    show ?thesis by (auto simp: sealed_def)
  next
    case PoA
    with poa show ?thesis by (auto simp: sealed_def)
  qed
  with p b w' that show ?thesis by blast
qed

lemma create_block_checks:
  assumes "sig_correct P" and "create_block P w data now salt = Returns (b, w')"
  shows "(consensus w = PoW \<longrightarrow> digests_fit P) \<Longrightarrow>
           check_block P (if chain_list w = [] then None else Some (last (chain_list w))) b = Inr True"
    and "block_invariant P (if chain_list w = [] then None else Some (last (chain_list w))) b"
    and "chain_list w' = chain_list w @ [b]"
    and "consensus w' = consensus w"
proof -
  from assms(2) obtain prev nonce dif h a where
    p: "last_hash w = Inr prev" and b: "b = new_block P w data now salt prev nonce dif h a"
    and w': "w' = w\<lparr>chain_list := chain_list w @ [b], disk := Content (chain_json (chain_list w @ [b]))\<rparr>"
    and s: "sealed P w data now prev nonce dif h a"
    by (rule create_block_sealed)
  let ?po = "if chain_list w = [] then None else Some (last (chain_list w))"
  from last_hash_cases(1) [OF p]
  have l: "case ?po of None \<Rightarrow> True | Some p \<Rightarrow> prev = dict_get p ''hash''"
    by simp
  from new_block_check [OF assms(1) s l]
  show "(consensus w = PoW \<longrightarrow> digests_fit P) \<Longrightarrow> check_block P ?po b = Inr True"
    by (simp add: b)
  show "consensus w' = consensus w" by (simp add: w')
  from new_block_invariant [OF assms(1) s l] show "block_invariant P ?po b" by (simp add: b)
  show "chain_list w' = chain_list w @ [b]" by (simp add: w')
qed

lemma blocks_ok_snoc:
  "blocks_ok P prev (xs @ [b]) =
     (blocks_ok P prev xs \<and> check_block P (if xs = [] then prev else Some (last xs)) b = Inr True)"
  by (induction xs arbitrary: prev) auto

subsection \<open>Every chain the node builds is valid\<close>

lemma blocks_ok_nth:
  "blocks_ok P None c = (\<forall>i<length c. check_block P (prev_block c i) (c ! i) = Inr True)"
proof (induction c rule: rev_induct)
  case Nil
  then show ?case by simp
next
  case (snoc b c)
  have 1: "prev_block (c @ [b]) i = prev_block c i" "(c @ [b]) ! i = c ! i" if "i < length c" for i
    using that by (auto simp: prev_block_def nth_append)
  have 2: "prev_block (c @ [b]) (length c) = (if c = [] then None else Some (last c))"
    by (auto simp: prev_block_def nth_append last_conv_nth)
  have "(\<forall>i<length (c @ [b]). check_block P (prev_block (c @ [b]) i) ((c @ [b]) ! i) = Inr True)
      = ((\<forall>i<length c. check_block P (prev_block c i) (c ! i) = Inr True)
         \<and> check_block P (if c = [] then None else Some (last c)) b = Inr True)"
    using 1 2 by (auto simp: less_Suc_eq)
  with snoc show ?case
    by (simp add: blocks_ok_snoc)
qed

lemma is_chain_valid_iff:
  "(is_chain_valid P w = Inr True) = (chain_list w \<noteq> [] \<and> blocks_ok P None (chain_list w))"
  by (simp add: is_chain_valid_def is_valid_chain_typed)

lemma create_block_valid:
  assumes "sig_correct P" and "create_block P w data now salt = Returns (b, w')"
    and "chain_list w = [] \<or> is_chain_valid P w = Inr True"
    and "consensus w = PoW \<longrightarrow> digests_fit P"
  shows "is_chain_valid P w' = Inr True"
proof -
  from assms(3) have ok: "blocks_ok P None (chain_list w)"
    by (auto simp: is_chain_valid_iff)
  from create_block_checks [OF assms(1,2)] assms(4) ok show ?thesis
    by (simp add: is_chain_valid_iff blocks_ok_snoc)
qed

lemma chain_invariant_snoc:
  "chain_invariant P (c @ [b]) =
     (chain_invariant P c \<and> block_invariant P (if c = [] then None else Some (last c)) b)"
proof -
  have 1: "prev_block (c @ [b]) i = prev_block c i" "(c @ [b]) ! i = c ! i" if "i < length c" for i
    using that by (auto simp: prev_block_def nth_append)
  have 2: "prev_block (c @ [b]) (length c) = (if c = [] then None else Some (last c))"
    by (auto simp: prev_block_def nth_append last_conv_nth)
  show ?thesis
    unfolding chain_invariant_def using 1 2 by (auto simp: less_Suc_eq)
qed

lemma create_block_invariant:
  assumes "sig_correct P" and "create_block P w data now salt = Returns (b, w')"
    and "chain_invariant P (chain_list w)"
  shows "chain_invariant P (chain_list w')"
  using create_block_checks [OF assms(1,2)] assms(3) by (simp add: chain_invariant_snoc)

lemma store_all_valid:
  "sig_correct P \<Longrightarrow> store_all P w calls = Returns w2 \<Longrightarrow>
   is_chain_valid P w = Inr True \<Longrightarrow> chain_invariant P (chain_list w) \<Longrightarrow>
   (consensus w = PoW \<longrightarrow> digests_fit P) \<Longrightarrow>
     is_chain_valid P w2 = Inr True \<and> chain_invariant P (chain_list w2)"
proof (induction calls arbitrary: w)
  case Nil
  then show ?case by simp
next
  case (Cons call calls)
  obtain evaluation now salt where call: "call = (evaluation, now, salt)"
    by (cases call) auto
  from Cons.prems(2) obtain b w' where
    r: "create_block P w evaluation now salt = Returns (b, w')" and rest: "store_all P w' calls = Returns w2"
    by (auto simp: call store_evaluation_def split: outcome.splits)
  from create_block_valid [OF Cons.prems(1) r _ Cons.prems(5)] Cons.prems(3)
  have v: "is_chain_valid P w' = Inr True" by simp
  from create_block_invariant [OF Cons.prems(1) r Cons.prems(4)]
  have i: "chain_invariant P (chain_list w')" .
  from create_block_checks(4) [OF Cons.prems(1) r] Cons.prems(5)
  have "consensus w' = PoW \<longrightarrow> digests_fit P" by simp
  from Cons.IH [OF Cons.prems(1) rest v i this] show ?case .
qed

lemma init_fresh_chain_valid:
  assumes "sig_correct P" and "init_fresh_chain P w now salt = Returns w1"
  shows "(consensus w = PoW \<longrightarrow> digests_fit P) \<Longrightarrow> is_chain_valid P w1 = Inr True"
    and "chain_invariant P (chain_list w1)" and "consensus w1 = consensus w"
proof -
  from assms(2) obtain b where
    r: "create_block P (w\<lparr>chain_list := []\<rparr>) genesis_data now salt = Returns (b, w1)"
    by (rule init_fresh_chain_Returns)
  from create_block_valid [OF assms(1) r]
  show "(consensus w = PoW \<longrightarrow> digests_fit P) \<Longrightarrow> is_chain_valid P w1 = Inr True"
    by simp
  from create_block_checks(4) [OF assms(1) r] show "consensus w1 = consensus w" by simp
  from create_block_invariant [OF assms(1) r] show "chain_invariant P (chain_list w1)"
    by (simp add: chain_invariant_def)
qed

lemma check_blocks_True:
  "check_blocks P prev bs = Inr True \<Longrightarrow> bs = map JObj (blocks_of (JList bs))"
proof (induction bs arbitrary: prev)
  case Nil
  then show ?case by simp
next
  case (Cons x bs)
  show ?case
  proof (cases x)
    case (JObj block)
    with Cons.prems have "check_blocks P (Some block) bs = Inr True"
      by (simp split: if_splits sum.splits)
    from Cons.IH [OF this] JObj show ?thesis by simp
  qed (use Cons.prems in \<open>simp_all split: if_splits\<close>)
qed

lemma is_valid_chain_True:
  assumes "is_valid_chain P v = Inr True"
  shows "v = chain_json (blocks_of v)"
proof (cases v)
  case (JList bs)
  with assms have "check_blocks P None bs = Inr True"
    by (simp add: is_valid_chain_def split: if_splits)
  from check_blocks_True [OF this] JList show ?thesis
    by (simp add: chain_json_def)
next
  case (JStr s)
  with assms show ?thesis
    by (cases s) (simp_all add: is_valid_chain_def split: if_splits)
qed (use assms in \<open>simp_all add: is_valid_chain_def split: if_splits\<close>)

lemma init_Returns:
  assumes "init P consensus_arg difficulty_arg key now salt f = Returns wi"
  shows "init_fresh_chain P (initial_ledger consensus_arg difficulty_arg key f) now salt = Returns wi
       \<or> (\<exists>v. f = Content v \<and> is_valid_chain P v = Inr True \<and> chain_list wi = blocks_of v
              \<and> disk wi = f)"
  using assms
  by (auto simp: init_def initial_ledger_def Let_def load_chain_def
           split: if_splits sum.splits chain_file.splits)

lemma init_valid:
  assumes "sig_correct P" and "init P consensus_arg difficulty_arg key now salt f = Returns wi"
    and "consensus_arg = ''pow'' \<longrightarrow> digests_fit P"
  shows "is_chain_valid P wi = Inr True"
  using init_Returns [OF assms(2)]
proof (elim disjE exE conjE)
  assume "init_fresh_chain P (initial_ledger consensus_arg difficulty_arg key f) now salt = Returns wi"
  from init_fresh_chain_valid(1) [OF assms(1) this] assms(3) show ?thesis
    by (simp add: initial_ledger_def split: if_splits)
next
  fix v assume "is_valid_chain P v = Inr True" "chain_list wi = blocks_of v"
  with is_valid_chain_True [of P v] show ?thesis
    by (simp add: is_chain_valid_def)
qed

lemma demo_init:
  "init demo ''poa'' None 7 1000 0 Absent = Returns (demo_node PoA 4 [poa_genesis])"
proof -
  have "\<lparr>consensus = PoA, chain_list = [], nodes = {}, difficulty = DEFAULT_DIFFICULTY,
          private_key = 7, disk = Absent\<rparr> = demo_ledger PoA 4"
    by (simp add: demo_ledger_def DEFAULT_DIFFICULTY_def)
  then show ?thesis
    by (simp add: init_def load_chain_def demo_poa_fresh)
qed

text \<open>
  Claim C4. Provided a signature made with the node's key verifies under its public key
  and, for a Proof-of-Work node, a digest is a string the process holds: when a fresh
  ledger followed by any number of appends returns, \<^verbatim>\<open>is_chain_valid\<close> is
  true and every block of the chain satisfies the invariant of the data model (linkage
  to the block before it, Merkle root of its payload, digest of its own mode, leading
  zeros under Proof-of-Work with a positive difficulty, signature verified against the
  stored public key and payload); an append to any valid chain returns a valid chain
  and a block that satisfies the invariant; and the ledger that \<^verbatim>\<open>__init__\<close> returns,
  fresh or loaded, is valid.
\<close>

theorem built_chain_invariant:
  "(sig_correct P \<and> (consensus w = PoW \<longrightarrow> digests_fit P)
      \<and> fresh_then_store P w now salt calls = Returns wr \<longrightarrow>
      is_chain_valid P wr = Inr True
      \<and> (\<forall>i<length (chain_list wr). block_invariant P (prev_block (chain_list wr) i) (chain_list wr ! i)))
   \<and> (sig_correct P \<and> (consensus w = PoW \<longrightarrow> digests_fit P) \<and> is_chain_valid P w = Inr True
        \<and> store_evaluation P w data now salt = Returns (b, w') \<longrightarrow>
        is_chain_valid P w' = Inr True \<and> block_invariant P (Some (last (chain_list w))) b)
   \<and> (sig_correct P \<and> (consensus_arg = ''pow'' \<longrightarrow> digests_fit P)
        \<and> init P consensus_arg difficulty_arg key now salt f = Returns wi \<longrightarrow>
        is_chain_valid P wi = Inr True)"
proof (intro conjI impI)
  assume a: "sig_correct P \<and> (consensus w = PoW \<longrightarrow> digests_fit P)
      \<and> fresh_then_store P w now salt calls = Returns wr"
  then obtain w1 where f: "init_fresh_chain P w now salt = Returns w1"
    and s: "store_all P w1 calls = Returns wr"
    by (auto simp: fresh_then_store_def split: outcome.splits)
  from a have sc: "sig_correct P" and df: "consensus w = PoW \<longrightarrow> digests_fit P" by simp_all
  from init_fresh_chain_valid(3) [OF sc f] df have df1: "consensus w1 = PoW \<longrightarrow> digests_fit P"
    by simp
  from store_all_valid [OF sc s init_fresh_chain_valid(1,2) [OF sc f] df1] df
  show "is_chain_valid P wr = Inr True"
    "\<forall>i<length (chain_list wr). block_invariant P (prev_block (chain_list wr) i) (chain_list wr ! i)"
    by (simp_all add: chain_invariant_def)
next
  assume a: "sig_correct P \<and> (consensus w = PoW \<longrightarrow> digests_fit P) \<and> is_chain_valid P w = Inr True
        \<and> store_evaluation P w data now salt = Returns (b, w')"
  then have sc: "sig_correct P" and df: "consensus w = PoW \<longrightarrow> digests_fit P"
    and v: "is_chain_valid P w = Inr True"
    and r: "create_block P w data now salt = Returns (b, w')"
    by (simp_all add: store_evaluation_def)
  from create_block_valid [OF sc r _ df] v show "is_chain_valid P w' = Inr True" by simp
  from v have "chain_list w \<noteq> []" by (simp add: is_chain_valid_iff)
  with create_block_checks(2) [OF sc r] show "block_invariant P (Some (last (chain_list w))) b"
    by simp
next
  assume "sig_correct P \<and> (consensus_arg = ''pow'' \<longrightarrow> digests_fit P)
      \<and> init P consensus_arg difficulty_arg key now salt f = Returns wi"
  then show "is_chain_valid P wi = Inr True"
    using init_valid by blast
qed

theorem built_chain_invariant_witness:
  "sig_correct demo \<and> digests_fit demo
   \<and> fresh_then_store demo (demo_ledger PoA 4) 1000 0 [(tx1, 1001, 0)]
       = Returns (demo_node PoA 4 [poa_genesis, poa_block2])
   \<and> is_chain_valid demo (demo_node PoA 4 [poa_genesis, poa_block2]) = Inr True
   \<and> block_invariant demo None poa_genesis
   \<and> block_invariant demo (Some poa_genesis) poa_block2
   \<and> is_chain_valid demo (demo_node PoW 2 [pow_genesis]) = Inr True
   \<and> store_evaluation demo (demo_node PoW 2 [pow_genesis]) tx1 2002 0
       = Returns (pow_block2, demo_node PoW 2 [pow_genesis, pow_block2])
   \<and> is_chain_valid demo (demo_node PoW 2 [pow_genesis, pow_block2]) = Inr True
   \<and> block_invariant demo (Some pow_genesis) pow_block2
   \<and> init demo ''poa'' None 7 1000 0 Absent = Returns (demo_node PoA 4 [poa_genesis])
   \<and> is_chain_valid demo (demo_node PoA 4 [poa_genesis]) = Inr True"
proof -
  let ?w2 = "demo_node PoA 4 [poa_genesis, poa_block2]"
  note t = built_chain_invariant
  from t [where P = demo and w = "demo_ledger PoA 4" and now = 1000 and salt = 0
      and calls = "[(tx1, 1001, 0)]" and wr = ?w2] demo_sig_correct demo_digests_fit demo_poa_run
  have 1: "is_chain_valid demo ?w2 = Inr True"
    and 2: "\<forall>i<length (chain_list ?w2). block_invariant demo (prev_block (chain_list ?w2) i) (chain_list ?w2 ! i)"
    by blast+
  from 2 [rule_format, of 0] 2 [rule_format, of 1]
  have 3: "block_invariant demo None poa_genesis" "block_invariant demo (Some poa_genesis) poa_block2"
    by (simp_all add: demo_fields prev_block_def)
  from t [where P = demo and w = "demo_ledger PoW 1" and now = 1999 and salt = 0
      and calls = "[]" and wr = "demo_node PoW 1 [pow_genesis]"] demo_sig_correct demo_digests_fit
    demo_pow_fresh
  have "is_chain_valid demo (demo_node PoW 1 [pow_genesis]) = Inr True"
    by (simp add: fresh_then_store_def)
  then have 4: "is_chain_valid demo (demo_node PoW 2 [pow_genesis]) = Inr True"
    by (simp add: is_chain_valid_def demo_fields)
  have 5: "store_evaluation demo (demo_node PoW 2 [pow_genesis]) tx1 2002 0
       = Returns (pow_block2, demo_node PoW 2 [pow_genesis, pow_block2])"
    by (simp add: store_evaluation_def demo_pow_store)
  from t [where P = demo and w = "demo_node PoW 2 [pow_genesis]" and data = tx1 and now = 2002
      and salt = 0 and b = pow_block2 and w' = "demo_node PoW 2 [pow_genesis, pow_block2]"]
    demo_sig_correct demo_digests_fit 4 5
  have 6: "is_chain_valid demo (demo_node PoW 2 [pow_genesis, pow_block2]) = Inr True"
    "block_invariant demo (Some pow_genesis) pow_block2"
    by (simp_all add: demo_fields)
  from t [where P = demo and consensus_arg = "''poa''" and difficulty_arg = None and key = 7
      and now = 1000 and salt = 0 and f = Absent and wi = "demo_node PoA 4 [poa_genesis]"]
    demo_sig_correct demo_digests_fit demo_init
  have 7: "is_chain_valid demo (demo_node PoA 4 [poa_genesis]) = Inr True"
    by blast
  from demo_sig_correct demo_digests_fit demo_poa_run demo_init 1 3 4 5 6 7 show ?thesis by blast
qed

subsection \<open>What the check of one block amounts to\<close>

lemma map_of_dict_set: "map_of (dict_set k v d) = (map_of d)(k \<mapsto> v)"
  by (induction d) auto

lemma dict_set_has: "dict_has (dict_set k v d) k' = (k' = k \<or> dict_has d k')"
  by (simp add: dict_has_def map_of_dict_set)

lemma dict_set_get_default:
  "dict_get_default (dict_set k v d) k' x = (if k' = k then v else dict_get_default d k' x)"
  by (simp add: dict_get_default_def map_of_dict_set)

lemma dict_set_get: "dict_get (dict_set k v d) k' = (if k' = k then v else dict_get d k')"
  by (simp add: dict_get_def dict_set_get_default)

lemma consensus_check_eq:
  "consensus_check P b t n d =
     (if dict_get b ''hash'' \<noteq> JStr (block_digest P b t n d) then Inr False
      else if block_tag b d = JStr ''pow'' \<and> 0 < d then
        (if 2 ^ 63 \<le> d then Inl OverflowError
         else if int (max_str P) < d then Inl MemoryError
         else Inr (startswith (block_digest P b t n d) (replicate (nat d) CHR ''0'')))
      else Inr True)"
  by (auto simp: consensus_check_def block_digest_def block_tag_def Let_def
        py_eq_JStr_left py_eq_JStr_right repeat_zero_def)

lemma consensus_check_True:
  "(consensus_check P b t n d = Inr True) =
     (dict_get b ''hash'' = JStr (block_digest P b t n d)
      \<and> (block_tag b d = JStr ''pow'' \<and> 0 < d \<longrightarrow>
           d < 2 ^ 63 \<and> d \<le> int (max_str P)
           \<and> startswith (block_digest P b t n d) (replicate (nat d) CHR ''0'')))"
  by (auto simp: consensus_check_eq)

lemma consensus_check_passed:
  "consensus_check P b t n d \<noteq> Inr False \<Longrightarrow> dict_get b ''hash'' = JStr (block_digest P b t n d)"
  by (simp add: consensus_check_eq split: if_splits)

lemma check_block_True:
  "(check_block P po b = Inr True) =
     ((\<forall>f\<in>set required_fields. dict_has b f)
      \<and> (case po of None \<Rightarrow> True
          | Some p \<Rightarrow> py_eq (dict_get b ''previous_hash'') (dict_get p ''hash''))
      \<and> dict_get b ''merkle_root'' = JStr (calculate_merkle_for_block P b)
      \<and> (\<exists>t n d. numeric_fields P b = Some (t, n, d) \<and> consensus_check P b t n d = Inr True)
      \<and> signature_check P b)"
  by (cases po; cases "numeric_fields P b")
     (auto simp: check_block_def list_ex_iff py_eq_JStr_right split: sum.splits if_splits)

lemma check_block_passed:
  assumes "check_block P po b \<noteq> Inr False"
  shows "\<forall>f\<in>set required_fields. dict_has b f"
    and "case po of None \<Rightarrow> True | Some p \<Rightarrow> py_eq (dict_get b ''previous_hash'') (dict_get p ''hash'')"
    and "dict_get b ''merkle_root'' = JStr (calculate_merkle_for_block P b)"
    and "\<exists>h. validator_digest P b = Some h \<and> dict_get b ''hash'' = JStr h"
proof -
  from assms show "\<forall>f\<in>set required_fields. dict_has b f"
    by (auto simp: check_block_def list_ex_iff split: if_splits)
  from assms show "case po of None \<Rightarrow> True
      | Some p \<Rightarrow> py_eq (dict_get b ''previous_hash'') (dict_get p ''hash'')"
    by (cases po) (auto simp: check_block_def split: if_splits)
  from assms show "dict_get b ''merkle_root'' = JStr (calculate_merkle_for_block P b)"
    by (auto simp: check_block_def py_eq_JStr_right split: if_splits)
  from assms obtain t n d where nf: "numeric_fields P b = Some (t, n, d)"
    and "consensus_check P b t n d \<noteq> Inr False"
    by (cases "numeric_fields P b") (auto simp: check_block_def split: if_splits sum.splits)
  from consensus_check_passed [OF this(2)] nf
  show "\<exists>h. validator_digest P b = Some h \<and> dict_get b ''hash'' = JStr h"
    by (simp add: validator_digest_def)
qed

lemma check_block_hash:
  assumes "check_block P po b = Inr True"
  shows "\<exists>h. validator_digest P b = Some h \<and> dict_get b ''hash'' = JStr h"
  using check_block_passed(4) [of P po b] assms by simp

text \<open>The numbers the validator reads from a block whose numeric fields are integers.\<close>

lemma numeric_fields_own:
  assumes "dict_get b ''timestamp'' = JInt t"
    and "if dict_has b ''nonce'' then dict_get b ''nonce'' = JInt n else n = 0"
    and "if dict_has b ''difficulty'' then dict_get b ''difficulty'' = JInt d else d = 0"
  shows "numeric_fields P b = Some (t, n, d)"
proof -
  from assms(1) have "dict_has b ''timestamp''"
    by (auto simp: dict_has_def dict_get_def dict_get_default_def split: option.splits)
  with assms show ?thesis
    by (auto simp: numeric_fields_def dict_get_default_has split: if_splits)
qed

subsection \<open>The consensus check of the validator\<close>

lemma is_chain_valid_config:
  "is_chain_valid P (w\<lparr>consensus := c, difficulty := d\<rparr>) = is_chain_valid P w"
  "is_chain_valid P (w\<lparr>difficulty := d\<rparr>) = is_chain_valid P w"
  by (simp_all add: is_chain_valid_def)

lemma create_block_pow_fields:
  assumes "create_block P w data now salt = Returns (b, w')" and "consensus w = PoW"
  shows "dict_get b ''difficulty'' = JInt (difficulty w)"
    and "\<exists>h. dict_get b ''hash'' = JStr h \<and> startswith h (replicate (nat (difficulty w)) CHR ''0'')"
proof -
  from assms(1) obtain prev nonce dif h a where
    b: "b = new_block P w data now salt prev nonce dif h a"
    and pow: "consensus w = PoW \<longrightarrow>
       pow_loop (compute_pow_hash P prev now (JStr (calculate_merkle_root P data))) (zeros (difficulty w)) 0
         = Some (nonce, h) \<and> dif = difficulty w \<and> a = None"
    by (rule create_block_Returns)
  from pow assms(2) pow_loop_sound [of "compute_pow_hash P prev now (JStr (calculate_merkle_root P data))"
      "zeros (difficulty w)" 0 "(nonce, h)"]
  have "dif = difficulty w" "startswith h (zeros (difficulty w))" by auto
  then show "dict_get b ''difficulty'' = JInt (difficulty w)"
    "\<exists>h. dict_get b ''hash'' = JStr h \<and> startswith h (replicate (nat (difficulty w)) CHR ''0'')"
    by (simp_all add: b new_block_fields zeros_def)
qed

lemma check_block_own:
  assumes "dict_get b ''timestamp'' = JInt t"
    and "if dict_has b ''nonce'' then dict_get b ''nonce'' = JInt n else n = 0"
    and "if dict_has b ''difficulty'' then dict_get b ''difficulty'' = JInt d else d = 0"
  shows "(check_block P prev b = Inr True) =
           ((\<forall>f\<in>set required_fields. dict_has b f)
            \<and> (case prev of None \<Rightarrow> True
                | Some p \<Rightarrow> py_eq (dict_get b ''previous_hash'') (dict_get p ''hash''))
            \<and> dict_get b ''merkle_root'' = JStr (calculate_merkle_for_block P b)
            \<and> dict_get b ''hash'' = JStr (block_digest P b t n d)
            \<and> (block_tag b d = JStr ''pow'' \<and> 0 < d \<longrightarrow>
                 d < 2 ^ 63 \<and> d \<le> int (max_str P)
                 \<and> startswith (block_digest P b t n d) (replicate (nat d) CHR ''0''))
            \<and> signature_check P b)"
  by (simp add: check_block_True numeric_fields_own [OF assms] consensus_check_True)

text \<open>
  Claim C6. Take a block whose timestamp is the integer \<open>t\<close> and whose nonce and
  difficulty are the integers \<open>n\<close> and \<open>d\<close>, or 0 when the field is absent. The check of
  the block passes exactly when the required fields are present, the block links to the
  one before it, its Merkle root matches, its signature check passes, and: under the
  block's own \<^verbatim>\<open>consensus\<close> tag \<open>pow\<close>, taken also when the tag is absent and \<open>d\<close> is
  positive, the stored hash is the Proof-of-Work digest of the block's own
  \<^verbatim>\<open>previous_hash\<close>, \<open>t\<close>, \<^verbatim>\<open>merkle_root\<close> and \<open>n\<close> and, for a positive \<open>d\<close>, the prefix
  of \<open>d\<close> zeros can be built and the digest starts with it; under any other tag, taken
  also when the tag is absent and \<open>d\<close> is not positive, the stored hash is the
  Proof-of-Authority digest over the block's \<^verbatim>\<open>authority_id\<close>. The validation of the
  node's chain does not read the node's mode or difficulty. Consequently, when the
  difficulty of a Proof-of-Work node with a valid chain is changed and a block is
  appended, the block records the new difficulty, its hash has that many leading zeros,
  and the whole chain is still valid.
\<close>

theorem consensus_dispatch:
  "(dict_get b ''timestamp'' = JInt t
      \<and> (if dict_has b ''nonce'' then dict_get b ''nonce'' = JInt n else n = 0)
      \<and> (if dict_has b ''difficulty'' then dict_get b ''difficulty'' = JInt d else d = 0) \<longrightarrow>
      (check_block P prev b = Inr True) =
        ((\<forall>f\<in>set required_fields. dict_has b f)
         \<and> (case prev of None \<Rightarrow> True
             | Some p \<Rightarrow> py_eq (dict_get b ''previous_hash'') (dict_get p ''hash''))
         \<and> dict_get b ''merkle_root'' = JStr (calculate_merkle_for_block P b)
         \<and> (if dict_get_default b ''consensus'' (JStr (if 0 < d then ''pow'' else ''poa'')) = JStr ''pow''
            then dict_get b ''hash''
                   = JStr (compute_pow_hash P (dict_get_default b ''previous_hash'' (JStr [])) t
                             (dict_get_default b ''merkle_root'' (JStr [])) n)
                 \<and> (0 < d \<longrightarrow>
                      d < 2 ^ 63 \<and> d \<le> int (max_str P)
                      \<and> startswith (compute_pow_hash P (dict_get_default b ''previous_hash'' (JStr [])) t
                                      (dict_get_default b ''merkle_root'' (JStr [])) n)
                          (replicate (nat d) CHR ''0''))
            else dict_get b ''hash''
                   = JStr (compute_poa_hash P (dict_get_default b ''previous_hash'' (JStr [])) t
                             (dict_get_default b ''merkle_root'' (JStr []))
                             (dict_get_default b ''authority_id'' (JStr []))))
         \<and> signature_check P b))
   \<and> is_chain_valid P (w\<lparr>consensus := c', difficulty := d'\<rparr>) = is_chain_valid P w
   \<and> (sig_correct P \<and> digests_fit P \<and> is_chain_valid P w = Inr True \<and> consensus w = PoW
        \<and> create_block P (w\<lparr>difficulty := d'\<rparr>) data now salt = Returns (b', w') \<longrightarrow>
        is_chain_valid P w' = Inr True
        \<and> dict_get b' ''difficulty'' = JInt d'
        \<and> (\<exists>h. dict_get b' ''hash'' = JStr h \<and> startswith h (replicate (nat d') CHR ''0'')))"
proof -
  have A: "dict_get b ''timestamp'' = JInt t
      \<and> (if dict_has b ''nonce'' then dict_get b ''nonce'' = JInt n else n = 0)
      \<and> (if dict_has b ''difficulty'' then dict_get b ''difficulty'' = JInt d else d = 0) \<longrightarrow>
      (check_block P prev b = Inr True) =
        ((\<forall>f\<in>set required_fields. dict_has b f)
         \<and> (case prev of None \<Rightarrow> True
             | Some p \<Rightarrow> py_eq (dict_get b ''previous_hash'') (dict_get p ''hash''))
         \<and> dict_get b ''merkle_root'' = JStr (calculate_merkle_for_block P b)
         \<and> (if dict_get_default b ''consensus'' (JStr (if 0 < d then ''pow'' else ''poa'')) = JStr ''pow''
            then dict_get b ''hash''
                   = JStr (compute_pow_hash P (dict_get_default b ''previous_hash'' (JStr [])) t
                             (dict_get_default b ''merkle_root'' (JStr [])) n)
                 \<and> (0 < d \<longrightarrow>
                      d < 2 ^ 63 \<and> d \<le> int (max_str P)
                      \<and> startswith (compute_pow_hash P (dict_get_default b ''previous_hash'' (JStr [])) t
                                      (dict_get_default b ''merkle_root'' (JStr [])) n)
                          (replicate (nat d) CHR ''0''))
            else dict_get b ''hash''
                   = JStr (compute_poa_hash P (dict_get_default b ''previous_hash'' (JStr [])) t
                             (dict_get_default b ''merkle_root'' (JStr []))
                             (dict_get_default b ''authority_id'' (JStr []))))
         \<and> signature_check P b)"
  proof
    assume a: "dict_get b ''timestamp'' = JInt t
      \<and> (if dict_has b ''nonce'' then dict_get b ''nonce'' = JInt n else n = 0)
      \<and> (if dict_has b ''difficulty'' then dict_get b ''difficulty'' = JInt d else d = 0)"
    then have 1: "dict_get b ''timestamp'' = JInt t"
      and 2: "if dict_has b ''nonce'' then dict_get b ''nonce'' = JInt n else n = 0"
      and 3: "if dict_has b ''difficulty'' then dict_get b ''difficulty'' = JInt d else d = 0"
      by simp_all
    show "(check_block P prev b = Inr True) =
        ((\<forall>f\<in>set required_fields. dict_has b f)
         \<and> (case prev of None \<Rightarrow> True
             | Some p \<Rightarrow> py_eq (dict_get b ''previous_hash'') (dict_get p ''hash''))
         \<and> dict_get b ''merkle_root'' = JStr (calculate_merkle_for_block P b)
         \<and> (if dict_get_default b ''consensus'' (JStr (if 0 < d then ''pow'' else ''poa'')) = JStr ''pow''
            then dict_get b ''hash''
                   = JStr (compute_pow_hash P (dict_get_default b ''previous_hash'' (JStr [])) t
                             (dict_get_default b ''merkle_root'' (JStr [])) n)
                 \<and> (0 < d \<longrightarrow>
                      d < 2 ^ 63 \<and> d \<le> int (max_str P)
                      \<and> startswith (compute_pow_hash P (dict_get_default b ''previous_hash'' (JStr [])) t
                                      (dict_get_default b ''merkle_root'' (JStr [])) n)
                          (replicate (nat d) CHR ''0''))
            else dict_get b ''hash''
                   = JStr (compute_poa_hash P (dict_get_default b ''previous_hash'' (JStr [])) t
                             (dict_get_default b ''merkle_root'' (JStr []))
                             (dict_get_default b ''authority_id'' (JStr []))))
         \<and> signature_check P b)"
      unfolding check_block_own [OF 1 2 3] block_digest_def block_tag_def
      by auto
  qed
  have B: "is_chain_valid P (w\<lparr>consensus := c', difficulty := d'\<rparr>) = is_chain_valid P w"
    by (rule is_chain_valid_config)
  have C: "sig_correct P \<and> digests_fit P \<and> is_chain_valid P w = Inr True \<and> consensus w = PoW
        \<and> create_block P (w\<lparr>difficulty := d'\<rparr>) data now salt = Returns (b', w') \<longrightarrow>
        is_chain_valid P w' = Inr True
        \<and> dict_get b' ''difficulty'' = JInt d'
        \<and> (\<exists>h. dict_get b' ''hash'' = JStr h \<and> startswith h (replicate (nat d') CHR ''0''))"
  proof
    assume a: "sig_correct P \<and> digests_fit P \<and> is_chain_valid P w = Inr True \<and> consensus w = PoW
        \<and> create_block P (w\<lparr>difficulty := d'\<rparr>) data now salt = Returns (b', w')"
    then have sc: "sig_correct P" and df: "digests_fit P"
      and r: "create_block P (w\<lparr>difficulty := d'\<rparr>) data now salt = Returns (b', w')"
      and v: "is_chain_valid P (w\<lparr>difficulty := d'\<rparr>) = Inr True"
      and pow: "consensus (w\<lparr>difficulty := d'\<rparr>) = PoW"
      by (simp_all add: is_chain_valid_config)
    from create_block_valid [OF sc r] v df have "is_chain_valid P w' = Inr True" by simp
    with create_block_pow_fields [OF r pow]
    show "is_chain_valid P w' = Inr True
        \<and> dict_get b' ''difficulty'' = JInt d'
        \<and> (\<exists>h. dict_get b' ''hash'' = JStr h \<and> startswith h (replicate (nat d') CHR ''0''))"
      by simp
  qed
  show ?thesis by (rule conjI [OF A conjI [OF B C]])
qed

lemma demo_pow_genesis_valid: "is_chain_valid demo (demo_node PoW 1 [pow_genesis]) = Inr True"
  using init_fresh_chain_valid(1) [OF demo_sig_correct demo_pow_fresh] demo_digests_fit by simp

lemma demo_pow_genesis_fields:
  "dict_get pow_genesis ''timestamp'' = JInt 1999" "dict_get pow_genesis ''nonce'' = JInt 1"
  "dict_get pow_genesis ''difficulty'' = JInt 1" "dict_has pow_genesis ''nonce''"
  "dict_has pow_genesis ''difficulty''" "dict_get pow_genesis ''hash'' = JStr ''00''"
  "dict_get_default pow_genesis ''consensus'' x = JStr ''pow''"
  "dict_get_default pow_genesis ''previous_hash'' x = JStr ''0''"
  "dict_get_default pow_genesis ''merkle_root'' x = JStr ''03''"
  by (simp_all add: pow_genesis_def dict_get_def dict_get_default_def dict_has_def)

theorem consensus_dispatch_witness:
  "dict_get pow_genesis ''timestamp'' = JInt 1999
   \<and> (if dict_has pow_genesis ''nonce'' then dict_get pow_genesis ''nonce'' = JInt 1 else (1::int) = 0)
   \<and> (if dict_has pow_genesis ''difficulty'' then dict_get pow_genesis ''difficulty'' = JInt 1
       else (1::int) = 0)
   \<and> check_block demo None pow_genesis = Inr True
   \<and> dict_get pow_genesis ''hash'' = JStr (compute_pow_hash demo (JStr ''0'') 1999 (JStr ''03'') 1)
   \<and> startswith (compute_pow_hash demo (JStr ''0'') 1999 (JStr ''03'') 1) (replicate (nat 1) CHR ''0'')
   \<and> dict_get (dict_set ''difficulty'' (JInt 3) pow_genesis) ''timestamp'' = JInt 1999
   \<and> dict_get (dict_set ''difficulty'' (JInt 3) pow_genesis) ''nonce'' = JInt 1
   \<and> dict_get (dict_set ''difficulty'' (JInt 3) pow_genesis) ''difficulty'' = JInt 3
   \<and> \<not> startswith (compute_pow_hash demo (JStr ''0'') 1999 (JStr ''03'') 1) (replicate (nat 3) CHR ''0'')
   \<and> check_block demo None (dict_set ''difficulty'' (JInt 3) pow_genesis) \<noteq> Inr True
   \<and> sig_correct demo \<and> digests_fit demo
   \<and> is_chain_valid demo (demo_node PoW 1 [pow_genesis]) = Inr True
   \<and> consensus (demo_node PoW 1 [pow_genesis]) = PoW
   \<and> create_block demo (demo_node PoW 1 [pow_genesis]\<lparr>difficulty := 2\<rparr>) tx1 2002 0
       = Returns (pow_block2, demo_node PoW 2 [pow_genesis, pow_block2])
   \<and> is_chain_valid demo (demo_node PoW 2 [pow_genesis, pow_block2]) = Inr True
   \<and> dict_get pow_block2 ''difficulty'' = JInt 2"
proof -
  note t = consensus_dispatch [where P = demo and prev = None and b = pow_genesis
      and t = 1999 and n = 1 and d = 1
      and w = "demo_node PoW 1 [pow_genesis]" and d' = 2 and data = tx1 and now = 2002 and salt = 0
      and b' = pow_block2 and w' = "demo_node PoW 2 [pow_genesis, pow_block2]"]
  note u = consensus_dispatch [where P = demo and prev = None
      and b = "dict_set ''difficulty'' (JInt 3) pow_genesis" and t = 1999 and n = 1 and d = 3,
      THEN conjunct1]
  have c: "check_block demo None pow_genesis = Inr True"
    using demo_pow_genesis_valid by (simp add: is_chain_valid_iff demo_fields)
  have r: "create_block demo (demo_node PoW 1 [pow_genesis]\<lparr>difficulty := 2\<rparr>) tx1 2002 0
       = Returns (pow_block2, demo_node PoW 2 [pow_genesis, pow_block2])"
    by (simp add: demo_updates demo_pow_store)
  have p: "consensus (demo_node PoW 1 [pow_genesis]) = PoW" by (simp add: demo_fields)
  from t [THEN conjunct1] c
  have 1: "dict_get pow_genesis ''hash'' = JStr (compute_pow_hash demo (JStr ''0'') 1999 (JStr ''03'') 1)"
    "startswith (compute_pow_hash demo (JStr ''0'') 1999 (JStr ''03'') 1) (replicate (nat 1) CHR ''0'')"
    by (simp_all add: demo_pow_genesis_fields)
  have z: "\<not> startswith (compute_pow_hash demo (JStr ''0'') 1999 (JStr ''03'') 1) (replicate (nat 3) CHR ''0'')"
    by (simp add: demo_pow_digest startswith_def numeral_3_eq_3)
  have f: "dict_get (dict_set ''difficulty'' (JInt 3) pow_genesis) ''timestamp'' = JInt 1999"
    "dict_get (dict_set ''difficulty'' (JInt 3) pow_genesis) ''nonce'' = JInt 1"
    "dict_get (dict_set ''difficulty'' (JInt 3) pow_genesis) ''difficulty'' = JInt 3"
    by (simp_all add: dict_set_get demo_pow_genesis_fields)
  from u z have 2: "check_block demo None (dict_set ''difficulty'' (JInt 3) pow_genesis) \<noteq> Inr True"
    by (simp add: dict_set_get dict_set_has dict_set_get_default demo_pow_genesis_fields)
  from t demo_sig_correct demo_digests_fit demo_pow_genesis_valid p r
  have 3: "is_chain_valid demo (demo_node PoW 2 [pow_genesis, pow_block2]) = Inr True"
    "dict_get pow_block2 ''difficulty'' = JInt 2"
    by blast+
  from c 1 z f 2 3 demo_sig_correct demo_digests_fit demo_pow_genesis_valid p r
  show ?thesis
    by (simp add: demo_pow_genesis_fields)
qed

subsection \<open>The genesis sentinel\<close>

lemma lone_block_checks: "check_block P None (lone_block P p t d) = Inr True"
proof -
  have m: "calculate_merkle_for_block P (lone_block P p t d) = calculate_merkle_root P d"
    by (simp add: calculate_merkle_for_block_def calculate_merkle_root_def block_data_def
          dict_get_default_def lone_block_def py_or_def)
  have n: "numeric_fields P (lone_block P p t d) = Some (t, 0, 0)"
    by (simp add: numeric_fields_def dict_get_default_def dict_has_def lone_block_def)
  have c: "consensus_check P (lone_block P p t d) t 0 0 = Inr True"
    by (simp add: consensus_check_def dict_get_default_def dict_get_def lone_block_def
          py_eq_JStr_left py_eq_JStr_right)
  have s: "signature_check P (lone_block P p t d)"
    by (simp add: signature_check_def dict_get_default_def dict_get_def lone_block_def)
  have f: "\<not> list_ex (\<lambda>field. \<not> dict_has (lone_block P p t d) field) required_fields"
    by (simp add: required_fields_def dict_has_def lone_block_def)
  have r: "py_eq (dict_get (lone_block P p t d) ''merkle_root'') (JStr (calculate_merkle_root P d))"
    by (simp add: dict_get_def dict_get_default_def lone_block_def py_eq_refl)
  from f r c s show ?thesis
    by (simp add: check_block_def m n)
qed

lemma unlinked_block_checks: "check_block P None (unlinked_block P t d) = Inr True"
proof -
  have m: "calculate_merkle_for_block P (unlinked_block P t d) = calculate_merkle_root P d"
    by (simp add: calculate_merkle_for_block_def calculate_merkle_root_def block_data_def
          dict_get_default_def unlinked_block_def py_or_def)
  have n: "numeric_fields P (unlinked_block P t d) = Some (t, 0, 0)"
    by (simp add: numeric_fields_def dict_get_default_def dict_has_def unlinked_block_def)
  have c: "consensus_check P (unlinked_block P t d) t 0 0 = Inr True"
    by (simp add: consensus_check_def dict_get_default_def dict_get_def unlinked_block_def
          py_eq_JStr_left py_eq_JStr_right)
  have s: "signature_check P (unlinked_block P t d)"
    by (simp add: signature_check_def dict_get_default_def dict_get_def unlinked_block_def)
  have f: "\<not> list_ex (\<lambda>field. \<not> dict_has (unlinked_block P t d) field) required_fields"
    by (simp add: required_fields_def dict_has_def unlinked_block_def)
  have r: "py_eq (dict_get (unlinked_block P t d) ''merkle_root'') (JStr (calculate_merkle_root P d))"
    by (simp add: dict_get_def dict_get_default_def unlinked_block_def py_eq_refl)
  from f r c s show ?thesis
    by (simp add: check_block_def m n)
qed

text \<open>
  Claim C10. The validator never looks at the genesis sentinel. For every string \<open>p\<close>
  the one-block chain whose block has \<^verbatim>\<open>previous_hash\<close> \<open>p\<close>, the Merkle root of its
  payload and the digest over \<open>p\<close> as its hash is accepted, and so is the one-block chain
  whose block has no \<^verbatim>\<open>previous_hash\<close> at all (the digest then reads the empty string).
\<close>

theorem genesis_sentinel_unchecked:
  "is_valid_chain P (chain_json [lone_block P p t d]) = Inr True
   \<and> dict_get (lone_block P p t d) ''previous_hash'' = JStr p
   \<and> is_valid_chain P (chain_json [unlinked_block P t d]) = Inr True
   \<and> \<not> dict_has (unlinked_block P t d) ''previous_hash''"
  by (simp add: is_valid_chain_typed lone_block_checks unlinked_block_checks)
     (simp add: lone_block_def unlinked_block_def dict_get_def dict_get_default_def dict_has_def)

subsection \<open>Tampering with one field\<close>

text \<open>Which fields each part of the check reads.\<close>

lemma merkle_dict_set:
  "k \<noteq> ''data'' \<Longrightarrow> calculate_merkle_for_block P (dict_set k v b) = calculate_merkle_for_block P b"
  by (simp add: calculate_merkle_for_block_def block_data_def dict_set_get_default)

lemma numeric_dict_set:
  "k \<noteq> ''timestamp'' \<Longrightarrow> k \<noteq> ''nonce'' \<Longrightarrow> k \<noteq> ''difficulty'' \<Longrightarrow>
     numeric_fields P (dict_set k v b) = numeric_fields P b"
  by (simp add: numeric_fields_def dict_set_get_default dict_set_has cong: option.case_cong)

lemma digest_dict_set:
  "k \<noteq> ''consensus'' \<Longrightarrow> k \<noteq> ''previous_hash'' \<Longrightarrow> k \<noteq> ''merkle_root'' \<Longrightarrow>
   k \<noteq> ''authority_id'' \<Longrightarrow>
     block_digest P (dict_set k v b) t n d = block_digest P b t n d
     \<and> block_tag (dict_set k v b) d = block_tag b d"
  by (simp add: block_digest_def block_tag_def dict_set_get_default)

lemma consensus_dict_set:
  "k \<noteq> ''consensus'' \<Longrightarrow> k \<noteq> ''previous_hash'' \<Longrightarrow> k \<noteq> ''merkle_root'' \<Longrightarrow>
   k \<noteq> ''authority_id'' \<Longrightarrow> k \<noteq> ''hash'' \<Longrightarrow>
     consensus_check P (dict_set k v b) t n d = consensus_check P b t n d"
  by (simp add: consensus_check_eq digest_dict_set dict_set_get)

lemma signature_dict_set:
  "k \<noteq> ''signature'' \<Longrightarrow> k \<noteq> ''public_key'' \<Longrightarrow> k \<noteq> ''data'' \<Longrightarrow>
     signature_check P (dict_set k v b) = signature_check P b"
  by (simp add: signature_check_def block_data_def dict_set_get dict_set_get_default)

lemma hash_mutation_rejected:
  assumes "check_block P po b = Inr True" and "v \<noteq> dict_get b ''hash''"
  shows "check_block P po (dict_set ''hash'' v b) = Inr False"
proof (rule ccontr)
  assume "check_block P po (dict_set ''hash'' v b) \<noteq> Inr False"
  from check_block_passed(4) [OF this] obtain h' where
    "validator_digest P (dict_set ''hash'' v b) = Some h'" "v = JStr h'"
    by (auto simp: dict_set_get)
  moreover have "validator_digest P (dict_set ''hash'' v b) = validator_digest P b"
    by (simp add: validator_digest_def numeric_dict_set digest_dict_set split: option.splits)
  moreover from check_block_hash [OF assms(1)] obtain h where
    "validator_digest P b = Some h" "dict_get b ''hash'' = JStr h" by blast
  ultimately show False using assms(2) by simp
qed

lemma digest_mutation_rejected:
  assumes "check_block P po b = Inr True" and "k \<noteq> ''hash''"
    and "validator_digest P (dict_set k v b) \<noteq> validator_digest P b"
  shows "check_block P po (dict_set k v b) = Inr False"
proof (rule ccontr)
  assume "check_block P po (dict_set k v b) \<noteq> Inr False"
  from check_block_passed(4) [OF this] assms(2) obtain h' where
    "validator_digest P (dict_set k v b) = Some h'" "dict_get b ''hash'' = JStr h'"
    by (auto simp: dict_set_get)
  moreover from check_block_hash [OF assms(1)] obtain h where
    "validator_digest P b = Some h" "dict_get b ''hash'' = JStr h" by blast
  ultimately show False using assms(3) by simp
qed

lemma merkle_mutation_rejected:
  assumes "check_block P po b = Inr True" and "v \<noteq> dict_get b ''merkle_root''"
  shows "check_block P po (dict_set ''merkle_root'' v b) = Inr False"
proof (rule ccontr)
  assume "check_block P po (dict_set ''merkle_root'' v b) \<noteq> Inr False"
  from check_block_passed(3) [OF this] have "v = JStr (calculate_merkle_for_block P b)"
    by (simp add: dict_set_get merkle_dict_set)
  moreover from assms(1) have "dict_get b ''merkle_root'' = JStr (calculate_merkle_for_block P b)"
    by (simp add: check_block_True)
  ultimately show False using assms(2) by simp
qed

lemma payload_mutation_rejected:
  assumes "check_block P po b = Inr True"
    and "calculate_merkle_for_block P (dict_set ''data'' v b) \<noteq> calculate_merkle_for_block P b"
  shows "check_block P po (dict_set ''data'' v b) = Inr False"
proof (rule ccontr)
  assume "check_block P po (dict_set ''data'' v b) \<noteq> Inr False"
  from check_block_passed(3) [OF this]
  have "dict_get b ''merkle_root'' = JStr (calculate_merkle_for_block P (dict_set ''data'' v b))"
    by (simp add: dict_set_get)
  moreover from assms(1) have "dict_get b ''merkle_root'' = JStr (calculate_merkle_for_block P b)"
    by (simp add: check_block_True)
  ultimately show False using assms(2) by simp
qed

lemma link_mutation_rejected:
  assumes "check_block P (Some p) b = Inr True" and "check_block P pp p = Inr True"
    and "v \<noteq> dict_get b ''previous_hash''"
  shows "check_block P (Some p) (dict_set ''previous_hash'' v b) = Inr False"
proof (rule ccontr)
  assume a: "check_block P (Some p) (dict_set ''previous_hash'' v b) \<noteq> Inr False"
  from check_block_hash [OF assms(2)] obtain h where h: "dict_get p ''hash'' = JStr h" by blast
  from check_block_passed(2) [OF a] h have "v = JStr h"
    by (simp add: dict_set_get py_eq_JStr_right)
  moreover from assms(1) h have "dict_get b ''previous_hash'' = JStr h"
    by (simp add: check_block_True py_eq_JStr_right)
  ultimately show False using assms(3) by simp
qed

lemma signature_mutation_rejected:
  assumes "check_block P po b = Inr True" and "py_truthy v"
    and "py_truthy (dict_get b ''public_key'')"
    and "\<not> verify_signature P (dict_get b ''public_key'') (block_data b) v"
  shows "check_block P po (dict_set ''signature'' v b) = Inr False"
proof -
  from assms(1) obtain t n d where
    f: "\<forall>f\<in>set required_fields. dict_has b f"
    and l: "case po of None \<Rightarrow> True
            | Some p \<Rightarrow> py_eq (dict_get b ''previous_hash'') (dict_get p ''hash'')"
    and m: "dict_get b ''merkle_root'' = JStr (calculate_merkle_for_block P b)"
    and nf: "numeric_fields P b = Some (t, n, d)" and cc: "consensus_check P b t n d = Inr True"
    by (auto simp: check_block_True)
  have s: "\<not> signature_check P (dict_set ''signature'' v b)"
    using assms(2-4)
    by (simp add: signature_check_def block_data_def dict_set_get dict_set_get_default)
  from f have "\<not> list_ex (\<lambda>field. \<not> dict_has (dict_set ''signature'' v b) field) required_fields"
    by (simp add: list_ex_iff dict_set_has)
  moreover from l have "\<not> (case po of None \<Rightarrow> False
      | Some previous \<Rightarrow> \<not> py_eq (dict_get (dict_set ''signature'' v b) ''previous_hash'')
                            (dict_get previous ''hash''))"
    by (cases po) (simp_all add: dict_set_get)
  moreover from m have "py_eq (dict_get (dict_set ''signature'' v b) ''merkle_root'')
      (JStr (calculate_merkle_for_block P (dict_set ''signature'' v b)))"
    by (simp add: dict_set_get merkle_dict_set py_eq_refl)
  ultimately show ?thesis
    using nf cc s
    by (simp add: check_block_def numeric_dict_set consensus_dict_set)
qed

lemma prev_block_update: "prev_block (c[i := b]) i = prev_block c i"
  by (simp add: prev_block_def)

lemma blocks_ok_append:
  "blocks_ok P prev (xs @ ys) =
     (blocks_ok P prev xs \<and> blocks_ok P (if xs = [] then prev else Some (last xs)) ys)"
  by (induction xs arbitrary: prev) auto

lemma update_rejected:
  assumes "i < length c" and "is_valid_chain P (chain_json c) = Inr True"
    and "check_block P (prev_block c i) b' = Inr False"
  shows "is_valid_chain P (chain_json (c[i := b'])) = Inr False"
proof -
  from assms(2) have "blocks_ok P None (take i c @ drop i c)"
    by (simp add: is_valid_chain_typed)
  then have ok: "blocks_ok P None (take i c)"
    unfolding blocks_ok_append by simp
  have pb: "(if take i c = [] then None else Some (last (take i c))) = prev_block c i"
    using assms(1) by (cases i) (auto simp: prev_block_def last_conv_nth min_def)
  have u: "c[i := b'] = take i c @ b' # drop (Suc i) c"
    using assms(1) by (rule upd_conv_take_nth_drop)
  from check_blocks_stops [OF ok, of b' "Inr False" "drop (Suc i) c"] assms(3) pb
  have "check_blocks P None (map JObj (c[i := b'])) = Inr False"
    by (simp add: u)
  with assms(1) show ?thesis
    by (auto simp: is_valid_chain_dicts)
qed

lemma valid_chain_nth:
  assumes "is_valid_chain P (chain_json c) = Inr True" and "i < length c"
  shows "check_block P (prev_block c i) (c ! i) = Inr True"
  using assms by (simp add: is_valid_chain_typed blocks_ok_nth)

text \<open>What the validator does not notice.\<close>

lemma poa_nonce_ignored:
  assumes "check_block P po b = Inr True" and "dict_get_default b ''consensus'' JNull = JStr ''poa''"
  shows "check_block P po (dict_set ''nonce'' (JInt n) b) = Inr True"
proof -
  from assms(2) have tag: "block_tag b d = JStr ''poa''" for d
    by (auto simp: block_tag_def dict_get_default_def split: option.splits)
  from assms(1) obtain t n0 d where
    nf: "numeric_fields P b = Some (t, n0, d)" and cc: "consensus_check P b t n0 d = Inr True"
    by (auto simp: check_block_True)
  from nf have nf': "numeric_fields P (dict_set ''nonce'' (JInt n) b) = Some (t, n, d)"
    by (auto simp: numeric_fields_def dict_set_get_default dict_set_has
             split: option.splits if_splits cong: option.case_cong)
  have "block_tag (dict_set ''nonce'' (JInt n) b) d = block_tag b d"
    "block_digest P (dict_set ''nonce'' (JInt n) b) t n d = block_digest P b t n0 d"
    using tag [of d] by (simp_all add: block_digest_def block_tag_def dict_set_get_default)
  with cc tag [of d] have "consensus_check P (dict_set ''nonce'' (JInt n) b) t n d = Inr True"
    by (simp add: consensus_check_True dict_set_get)
  with assms(1) nf' show ?thesis
    by (simp add: check_block_True dict_set_has dict_set_get merkle_dict_set signature_dict_set
             split: option.splits)
qed

lemma blank_signature_accepted:
  assumes "check_block P po b = Inr True"
  shows "check_block P po (dict_set ''signature'' (JStr []) b) = Inr True"
proof -
  have s: "signature_check P (dict_set ''signature'' (JStr []) b)"
    by (simp add: signature_check_def dict_set_get)
  with assms s show ?thesis
    by (simp add: check_block_True dict_set_has dict_set_get merkle_dict_set numeric_dict_set
             consensus_dict_set split: option.splits)
qed

lemma falsy_payload_accepted:
  assumes "check_block P po b = Inr True" and "\<not> py_truthy (dict_get_default b ''data'' (JObj []))"
    and "\<not> py_truthy v"
  shows "check_block P po (dict_set ''data'' v b) = Inr True"
proof -
  from assms(2,3) have d: "block_data (dict_set ''data'' v b) = block_data b"
    by (simp add: block_data_def dict_set_get_default py_or_def)
  then have m: "calculate_merkle_for_block P (dict_set ''data'' v b) = calculate_merkle_for_block P b"
    by (simp add: calculate_merkle_for_block_def)
  from d have s: "signature_check P (dict_set ''data'' v b) = signature_check P b"
    by (simp add: signature_check_def dict_set_get)
  with assms(1) m s show ?thesis
    by (simp add: check_block_True dict_set_has dict_set_get numeric_dict_set consensus_dict_set
             split: option.splits)
qed

lemma one_block_valid:
  "(is_valid_chain P (chain_json [b]) = Inr True) = (check_block P None b = Inr True)"
  by (simp add: is_valid_chain_typed)

lemma demo_poa_genesis_valid: "is_chain_valid demo (demo_node PoA 4 [poa_genesis]) = Inr True"
  using init_fresh_chain_valid(1) [OF demo_sig_correct demo_poa_fresh] demo_digests_fit by simp

lemma demo_poa_chain_valid: "is_valid_chain demo (chain_json [poa_genesis, poa_block2]) = Inr True"
proof -
  from demo_poa_store have "create_block demo (demo_node PoA 4 [poa_genesis]) tx1 1001 0
      = Returns (poa_block2, demo_node PoA 4 [poa_genesis, poa_block2])"
    by (simp add: store_evaluation_def)
  from create_block_valid [OF demo_sig_correct this] demo_digests_fit demo_poa_genesis_valid
  show ?thesis
    by (simp add: is_chain_valid_def demo_fields)
qed

lemma demo_pow_chain_valid: "is_valid_chain demo (chain_json [pow_genesis]) = Inr True"
  using demo_pow_genesis_valid by (simp add: is_chain_valid_def demo_fields)

text \<open>
  Claim C1, as stated, fails: three accepted chains stay accepted after one field of one
  block is changed to a different value. In the Proof-of-Authority genesis block the
  nonce 0 becomes 5 (the Proof-of-Authority digest does not read the nonce); its
  signature becomes the empty string (step 4 verifies only a non-empty signature); and
  in an unsigned block the payload \<^verbatim>\<open>{}\<close> becomes \<^verbatim>\<open>null\<close> (both are replaced by
  \<^verbatim>\<open>{}\<close> before hashing).
\<close>

theorem tamper_counterexample:
  "is_valid_chain demo (chain_json [poa_genesis]) = Inr True
   \<and> JInt 5 \<noteq> dict_get poa_genesis ''nonce''
   \<and> is_valid_chain demo (chain_json ([poa_genesis][0 := dict_set ''nonce'' (JInt 5) poa_genesis])) = Inr True
   \<and> JStr [] \<noteq> dict_get poa_genesis ''signature''
   \<and> is_valid_chain demo (chain_json ([poa_genesis][0 := dict_set ''signature'' (JStr []) poa_genesis]))
       = Inr True
   \<and> is_valid_chain demo (chain_json [lone_block demo ''0'' 1000 []]) = Inr True
   \<and> JNull \<noteq> dict_get (lone_block demo ''0'' 1000 []) ''data''
   \<and> is_valid_chain demo (chain_json ([lone_block demo ''0'' 1000 []]
         [0 := dict_set ''data'' JNull (lone_block demo ''0'' 1000 [])])) = Inr True"
proof -
  have g: "check_block demo None poa_genesis = Inr True"
    using demo_poa_genesis_valid by (simp add: is_chain_valid_iff demo_fields)
  have tag: "dict_get_default poa_genesis ''consensus'' JNull = JStr ''poa''"
    by (simp add: poa_genesis_def dict_get_default_def)
  have f: "\<not> py_truthy (dict_get_default (lone_block demo ''0'' 1000 []) ''data'' (JObj []))"
    by (simp add: lone_block_def dict_get_default_def)
  have v: "JInt 5 \<noteq> dict_get poa_genesis ''nonce''" "JStr [] \<noteq> dict_get poa_genesis ''signature''"
    "JNull \<noteq> dict_get (lone_block demo ''0'' 1000 []) ''data''"
    by (simp_all add: poa_genesis_def lone_block_def dict_get_def dict_get_default_def)
  from g poa_nonce_ignored [OF g tag, of 5] blank_signature_accepted [OF g]
    falsy_payload_accepted [OF lone_block_checks f, of JNull] lone_block_checks [of demo "''0''" 1000 "[]"] v
  show ?thesis
    by (simp add: one_block_valid)
qed

text \<open>
  Claim C1, amended. In a chain that \<^verbatim>\<open>is_valid_chain\<close> accepts, changing in any one
  block the \<^verbatim>\<open>hash\<close> or the \<^verbatim>\<open>merkle_root\<close> to a different value, or the
  \<^verbatim>\<open>previous_hash\<close> of a block other than the first, makes \<^verbatim>\<open>is_valid_chain\<close> return
  false; so does changing the signature of a block that holds a public key to a
  non-empty value that does not verify against that key and the payload, changing the
  payload to one whose recomputed Merkle root differs, and changing any field other than
  \<^verbatim>\<open>hash\<close> (the nonce, the first block's \<^verbatim>\<open>previous_hash\<close>) so that the digest the
  validator recomputes differs.
\<close>

theorem tamper_detection:
  "(is_valid_chain P (chain_json c) = Inr True \<and> i < length c \<and> v \<noteq> dict_get (c ! i) ''hash'' \<longrightarrow>
      is_valid_chain P (chain_json (c[i := dict_set ''hash'' v (c ! i)])) = Inr False)
   \<and> (is_valid_chain P (chain_json c) = Inr True \<and> i < length c
        \<and> v \<noteq> dict_get (c ! i) ''merkle_root'' \<longrightarrow>
        is_valid_chain P (chain_json (c[i := dict_set ''merkle_root'' v (c ! i)])) = Inr False)
   \<and> (is_valid_chain P (chain_json c) = Inr True \<and> 0 < i \<and> i < length c
        \<and> v \<noteq> dict_get (c ! i) ''previous_hash'' \<longrightarrow>
        is_valid_chain P (chain_json (c[i := dict_set ''previous_hash'' v (c ! i)])) = Inr False)
   \<and> (is_valid_chain P (chain_json c) = Inr True \<and> i < length c
        \<and> py_truthy v \<and> py_truthy (dict_get (c ! i) ''public_key'')
        \<and> \<not> verify_signature P (dict_get (c ! i) ''public_key'') (block_data (c ! i)) v \<longrightarrow>
        is_valid_chain P (chain_json (c[i := dict_set ''signature'' v (c ! i)])) = Inr False)
   \<and> (is_valid_chain P (chain_json c) = Inr True \<and> i < length c
        \<and> calculate_merkle_for_block P (dict_set ''data'' v (c ! i)) \<noteq> calculate_merkle_for_block P (c ! i)
        \<longrightarrow> is_valid_chain P (chain_json (c[i := dict_set ''data'' v (c ! i)])) = Inr False)
   \<and> (is_valid_chain P (chain_json c) = Inr True \<and> i < length c \<and> k \<noteq> ''hash''
        \<and> validator_digest P (dict_set k v (c ! i)) \<noteq> validator_digest P (c ! i)
        \<longrightarrow> is_valid_chain P (chain_json (c[i := dict_set k v (c ! i)])) = Inr False)"
proof (intro conjI impI)
  assume a: "is_valid_chain P (chain_json c) = Inr True \<and> i < length c \<and> v \<noteq> dict_get (c ! i) ''hash''"
  then have "check_block P (prev_block c i) (c ! i) = Inr True" by (simp add: valid_chain_nth)
  from hash_mutation_rejected [OF this] a
  have "check_block P (prev_block c i) (dict_set ''hash'' v (c ! i)) = Inr False" by simp
  with a update_rejected
  show "is_valid_chain P (chain_json (c[i := dict_set ''hash'' v (c ! i)])) = Inr False"
    by blast
next
  assume a: "is_valid_chain P (chain_json c) = Inr True \<and> i < length c
      \<and> v \<noteq> dict_get (c ! i) ''merkle_root''"
  then have "check_block P (prev_block c i) (c ! i) = Inr True" by (simp add: valid_chain_nth)
  from merkle_mutation_rejected [OF this] a
  have "check_block P (prev_block c i) (dict_set ''merkle_root'' v (c ! i)) = Inr False" by simp
  with a update_rejected
  show "is_valid_chain P (chain_json (c[i := dict_set ''merkle_root'' v (c ! i)])) = Inr False"
    by blast
next
  assume a: "is_valid_chain P (chain_json c) = Inr True \<and> 0 < i \<and> i < length c
      \<and> v \<noteq> dict_get (c ! i) ''previous_hash''"
  then have "i - 1 < length c" by auto
  with a have 1: "check_block P (prev_block c i) (c ! i) = Inr True"
    and 2: "check_block P (prev_block c (i - 1)) (c ! (i - 1)) = Inr True"
    using valid_chain_nth by blast+
  from a have p: "prev_block c i = Some (c ! (i - 1))" by (simp add: prev_block_def)
  from link_mutation_rejected [OF 1 [unfolded p] 2] a
  have "check_block P (prev_block c i) (dict_set ''previous_hash'' v (c ! i)) = Inr False"
    by (simp add: p)
  with a update_rejected
  show "is_valid_chain P (chain_json (c[i := dict_set ''previous_hash'' v (c ! i)])) = Inr False"
    by blast
next
  assume a: "is_valid_chain P (chain_json c) = Inr True \<and> i < length c
      \<and> py_truthy v \<and> py_truthy (dict_get (c ! i) ''public_key'')
      \<and> \<not> verify_signature P (dict_get (c ! i) ''public_key'') (block_data (c ! i)) v"
  then have "check_block P (prev_block c i) (c ! i) = Inr True" by (simp add: valid_chain_nth)
  from signature_mutation_rejected [OF this] a
  have "check_block P (prev_block c i) (dict_set ''signature'' v (c ! i)) = Inr False" by simp
  with a update_rejected
  show "is_valid_chain P (chain_json (c[i := dict_set ''signature'' v (c ! i)])) = Inr False"
    by blast
next
  assume a: "is_valid_chain P (chain_json c) = Inr True \<and> i < length c
      \<and> calculate_merkle_for_block P (dict_set ''data'' v (c ! i)) \<noteq> calculate_merkle_for_block P (c ! i)"
  then have "check_block P (prev_block c i) (c ! i) = Inr True" by (simp add: valid_chain_nth)
  from payload_mutation_rejected [OF this] a
  have "check_block P (prev_block c i) (dict_set ''data'' v (c ! i)) = Inr False" by simp
  with a update_rejected
  show "is_valid_chain P (chain_json (c[i := dict_set ''data'' v (c ! i)])) = Inr False"
    by blast
next
  assume a: "is_valid_chain P (chain_json c) = Inr True \<and> i < length c \<and> k \<noteq> ''hash''
      \<and> validator_digest P (dict_set k v (c ! i)) \<noteq> validator_digest P (c ! i)"
  then have "check_block P (prev_block c i) (c ! i) = Inr True" by (simp add: valid_chain_nth)
  from digest_mutation_rejected [OF this] a
  have "check_block P (prev_block c i) (dict_set k v (c ! i)) = Inr False" by simp
  with a update_rejected
  show "is_valid_chain P (chain_json (c[i := dict_set k v (c ! i)])) = Inr False"
    by blast
qed

theorem tamper_detection_witness:
  "is_valid_chain demo (chain_json [poa_genesis, poa_block2]) = Inr True
   \<and> JStr ''ff'' \<noteq> dict_get poa_block2 ''hash''
   \<and> is_valid_chain demo (chain_json [poa_genesis, dict_set ''hash'' (JStr ''ff'') poa_block2]) = Inr False
   \<and> JStr ''ff'' \<noteq> dict_get poa_block2 ''merkle_root''
   \<and> is_valid_chain demo (chain_json [poa_genesis, dict_set ''merkle_root'' (JStr ''ff'') poa_block2])
       = Inr False
   \<and> JStr ''ff'' \<noteq> dict_get poa_block2 ''previous_hash''
   \<and> is_valid_chain demo (chain_json [poa_genesis, dict_set ''previous_hash'' (JStr ''ff'') poa_block2])
       = Inr False
   \<and> py_truthy (JStr ''ff'') \<and> py_truthy (dict_get poa_block2 ''public_key'')
   \<and> \<not> verify_signature demo (dict_get poa_block2 ''public_key'') (block_data poa_block2) (JStr ''ff'')
   \<and> is_valid_chain demo (chain_json [poa_genesis, dict_set ''signature'' (JStr ''ff'') poa_block2])
       = Inr False
   \<and> calculate_merkle_for_block demo (dict_set ''data'' (JStr ''ff'') poa_block2)
       \<noteq> calculate_merkle_for_block demo poa_block2
   \<and> is_valid_chain demo (chain_json [poa_genesis, dict_set ''data'' (JStr ''ff'') poa_block2]) = Inr False
   \<and> validator_digest demo (dict_set ''timestamp'' (JStr ''ff'') poa_block2)
       \<noteq> validator_digest demo poa_block2
   \<and> is_valid_chain demo (chain_json [poa_genesis, dict_set ''timestamp'' (JStr ''ff'') poa_block2])
       = Inr False"
proof -
  note t = tamper_detection [where P = demo and c = "[poa_genesis, poa_block2]" and i = 1
      and v = "JStr ''ff''" and k = "''timestamp''", simplified]
  have v: "JStr ''ff'' \<noteq> dict_get poa_block2 ''hash''"
    "JStr ''ff'' \<noteq> dict_get poa_block2 ''merkle_root''"
    "JStr ''ff'' \<noteq> dict_get poa_block2 ''previous_hash''"
    by (simp_all add: poa_block2_def dict_get_def dict_get_default_def)
  have pk: "dict_get poa_block2 ''public_key'' = JStr ''PEM7''"
    by (simp add: poa_block2_def dict_get_def dict_get_default_def)
  have s: "py_truthy (JStr ''ff'')" "py_truthy (dict_get poa_block2 ''public_key'')"
    "\<not> verify_signature demo (dict_get poa_block2 ''public_key'') (block_data poa_block2) (JStr ''ff'')"
    by (simp_all add: pk) (simp add: demo_def)
  have "calculate_merkle_for_block demo (dict_set ''data'' (JStr ''ff'') poa_block2) = ''10''"
    by (simp add: calculate_merkle_for_block_def block_data_def dict_set_get_default py_or_def
          demo_def demo_sha_def hexdigit_def)
  moreover have "calculate_merkle_for_block demo poa_block2 = ''19''"
    using valid_chain_nth [OF demo_poa_chain_valid, of 1]
    by (simp add: check_block_True) (simp add: poa_block2_def dict_get_def dict_get_default_def)
  ultimately have m: "calculate_merkle_for_block demo (dict_set ''data'' (JStr ''ff'') poa_block2)
       \<noteq> calculate_merkle_for_block demo poa_block2"
    by simp
  have "validator_digest demo (dict_set ''timestamp'' (JStr ''ff'') poa_block2) = None"
    by (simp add: validator_digest_def numeric_fields_def dict_set_get_default demo_def)
  moreover have "validator_digest demo poa_block2 \<noteq> None"
    using check_block_hash [OF valid_chain_nth [OF demo_poa_chain_valid, of 1]] by auto
  ultimately have d: "validator_digest demo (dict_set ''timestamp'' (JStr ''ff'') poa_block2)
       \<noteq> validator_digest demo poa_block2"
    by auto
  from t demo_poa_chain_valid v s m d show ?thesis
    by simp
qed

subsection \<open>The Merkle root and the order of keys\<close>

lemma sort_key_fst_unique:
  assumes "distinct (map fst A)" and "distinct (map fst B)" and "set A = set B"
  shows "sort_key fst A = sort_key fst B"
proof (rule map_sorted_distinct_set_unique [where f = fst])
  from assms(1) have "inj_on fst (set A)" by (simp add: distinct_map)
  with assms(3) show "inj_on fst (set (sort_key fst A) \<union> set (sort_key fst B))" by simp
  show "sorted (map fst (sort_key fst A))" "sorted (map fst (sort_key fst B))"
    by (rule sorted_sort_key)+
  from assms(1) show "distinct (map fst (sort_key fst A))" by (simp add: distinct_map)
  from assms(2) show "distinct (map fst (sort_key fst B))" by (simp add: distinct_map)
  from assms(3) show "set (sort_key fst A) = set (sort_key fst B)" by simp
qed

lemma dumped_items_subset:
  assumes "distinct (map fst xs)" and "distinct (map fst ys)" and "fst ` set xs \<subseteq> fst ` set ys"
    and "\<forall>k v v'. map_of xs k = Some v \<longrightarrow> map_of ys k = Some v' \<longrightarrow> f v = f v'"
  shows "set (map (\<lambda>(k, v). (k, f v)) xs) \<subseteq> set (map (\<lambda>(k, v). (k, f v)) ys)"
proof
  fix p assume "p \<in> set (map (\<lambda>(k, v). (k, f v)) xs)"
  then obtain k v where kv: "(k, v) \<in> set xs" and p: "p = (k, f v)" by auto
  with assms(3) obtain v' where kv': "(k, v') \<in> set ys" by force
  from kv assms(1) have "map_of xs k = Some v" by simp
  moreover from kv' assms(2) have "map_of ys k = Some v'" by simp
  ultimately have "f v = f v'" using assms(4) by blast
  with kv' p show "p \<in> set (map (\<lambda>(k, v). (k, f v)) ys)" by force
qed

lemma same_payload_dumps: "same_payload a b \<Longrightarrow> json_dumps P a = json_dumps P b"
proof (induction rule: same_payload.induct)
  case (same_list xs ys)
  then have "map (json_dumps P) xs = map (json_dumps P) ys"
    by (induction xs ys rule: list_all2_induct) simp_all
  then show ?case by simp
next
  case (same_obj xs ys)
  let ?A = "map (\<lambda>(k, v). (k, json_dumps P v)) xs"
  let ?B = "map (\<lambda>(k, v). (k, json_dumps P v)) ys"
  have "map fst ?A = map fst xs" "map fst ?B = map fst ys"
    by (simp_all add: case_prod_unfold comp_def)
  with same_obj(1,2) have d: "distinct (map fst ?A)" "distinct (map fst ?B)"
    by (simp_all only:)
  from same_obj have 1: "\<forall>k v v'. map_of xs k = Some v \<longrightarrow> map_of ys k = Some v'
      \<longrightarrow> json_dumps P v = json_dumps P v'"
    by blast
  then have 2: "\<forall>k v v'. map_of ys k = Some v \<longrightarrow> map_of xs k = Some v'
      \<longrightarrow> json_dumps P v = json_dumps P v'"
    by metis
  from same_obj(1-3) have "set ?A \<subseteq> set ?B" "set ?B \<subseteq> set ?A"
    by (intro dumped_items_subset 1 2; simp)+
  then have "set ?A = set ?B" by blast
  from sort_key_fst_unique [OF d this]
  have "sort_key fst ?A = sort_key fst ?B" .
  then show ?case by simp
qed simp_all

text \<open>
  Claim C7. The Merkle root is a function of the payload and of the digest alone, defined
  on every payload. Two payloads that are the same key-value map, whatever the order of
  the keys of the payload and of the dicts nested in it, have the same serialisation and
  so the same root, for \<^verbatim>\<open>calculate_merkle_root\<close> and for
  \<^verbatim>\<open>_calculate_merkle_for_block\<close>.
\<close>

theorem merkle_root_key_order:
  "(same_payload a b \<longrightarrow> json_dumps P a = json_dumps P b)
   \<and> (same_payload (JObj d1) (JObj d2) \<longrightarrow>
        calculate_merkle_root P d1 = calculate_merkle_root P d2
        \<and> calculate_merkle_for_block P ((''data'', JObj d1) # rest)
            = calculate_merkle_for_block P ((''data'', JObj d2) # rest))"
proof (intro conjI impI)
  assume "same_payload a b"
  then show "json_dumps P a = json_dumps P b" by (rule same_payload_dumps)
next
  assume s: "same_payload (JObj d1) (JObj d2)"
  from same_payload_dumps [OF this] show "calculate_merkle_root P d1 = calculate_merkle_root P d2"
    by (simp only: calculate_merkle_root_def)
  have "py_or (JObj d) (JObj []) = JObj d" for d
    by (simp add: py_or_def)
  with same_payload_dumps [OF s]
  show "calculate_merkle_for_block P ((''data'', JObj d1) # rest)
            = calculate_merkle_for_block P ((''data'', JObj d2) # rest)"
    by (simp only: calculate_merkle_for_block_def block_data_def dict_get_default_def map_of.simps
          fst_conv snd_conv fun_upd_same option.case)
qed

lemma same_payload_ab: "same_payload (JObj payload_ab) (JObj payload_ba)"
proof -
  have i: "same_payload (JObj [(''x'', JNull), (''y'', JList [JBool True])])
             (JObj [(''y'', JList [JBool True]), (''x'', JNull)])"
    by (rule same_obj) (auto intro: same_payload.intros split: if_splits)
  show ?thesis
    unfolding payload_ab_def payload_ba_def
    by (rule same_obj) (auto intro: same_payload.intros i split: if_splits)
qed

theorem merkle_root_key_order_witness:
  "same_payload (JObj payload_ab) (JObj payload_ba) \<and> payload_ab \<noteq> payload_ba
   \<and> json_dumps demo (JObj payload_ab) = json_dumps demo (JObj payload_ba)
   \<and> calculate_merkle_root demo payload_ab = calculate_merkle_root demo payload_ba"
proof -
  have "payload_ab \<noteq> payload_ba" by (simp add: payload_ab_def payload_ba_def)
  with merkle_root_key_order [of "JObj payload_ab" "JObj payload_ba" demo payload_ab payload_ba]
    same_payload_ab
  show ?thesis by blast
qed

subsection \<open>Chain replacement\<close>

lemma replace_chain_dicts:
  "replace_chain P w (chain_json c) =
     (if length c \<le> length (chain_list w) then Returns (False, w)
      else (case is_valid_chain P (chain_json c) of
              Inl e \<Rightarrow> Raises e
            | Inr ok \<Rightarrow>
                if ok then Returns (True, w\<lparr>chain_list := c, disk := Content (chain_json c)\<rparr>)
                else Returns (False, w)))"
proof -
  have "blocks_of (chain_json c) = c"
    by (induction c) (simp_all add: chain_json_def)
  then show ?thesis
    by (cases c) (auto simp: replace_chain_def save_chain_def chain_json_def split: sum.splits)
qed

text \<open>Adoption: exactly the accepted candidates longer than the chain, saved at once.\<close>

lemma replace_chain_True:
  "(replace_chain P w v = Returns (True, w')) =
     (is_valid_chain P v = Inr True \<and> length (chain_list w) < length (blocks_of v)
      \<and> w' = w\<lparr>chain_list := blocks_of v, disk := Content v\<rparr>)"
proof (cases "is_valid_chain P v = Inr True")
  case True
  define c where "c = blocks_of v"
  from is_valid_chain_True [OF True] have v: "v = chain_json c" by (simp add: c_def)
  from True have ok: "is_valid_chain P (chain_json c) = Inr True" by (simp add: v)
  have "(replace_chain P w (chain_json c) = Returns (True, w')) =
      (length (chain_list w) < length c \<and> w' = w\<lparr>chain_list := c, disk := Content (chain_json c)\<rparr>)"
    by (auto simp: replace_chain_dicts ok)
  with ok show ?thesis
    unfolding c_def [symmetric] by (simp add: v)
next
  case False
  then show ?thesis
    by (auto simp: replace_chain_def split: if_splits sum.splits)
qed

text \<open>A false return leaves the ledger, chain and store included, as it was.\<close>

lemma replace_chain_False:
  "replace_chain P w v = Returns (False, w') \<Longrightarrow> w' = w"
  by (auto simp: replace_chain_def split: if_splits sum.splits)

text \<open>When it raises: on \<^verbatim>\<open>len\<close>, or inside the validator on a longer candidate.\<close>

lemma replace_chain_Raises:
  "(replace_chain P w v = Raises e) =
     (py_truthy v \<and> (py_len v = Inl e
        \<or> (\<exists>n. py_len v = Inr n \<and> length (chain_list w) < n \<and> is_valid_chain P v = Inl e)))"
  by (auto simp: replace_chain_def split: if_splits sum.splits)

text \<open>
  Claim C2. An empty candidate and a candidate no longer than the chain give false, a
  longer candidate the validator accepts is adopted and saved, and a false return
  changes nothing (\<open>replace_chain_dicts\<close>, \<open>replace_chain_True\<close>,
  \<open>replace_chain_False\<close>). But a longer candidate that is not valid need not make
  \<^verbatim>\<open>replace_chain\<close> return false: on the two-element candidate \<^verbatim>\<open>[1, 2]\<close> against a
  one-block chain the test \<^verbatim>\<open>"timestamp" not in 1\<close> raises TypeError inside
  \<^verbatim>\<open>is_valid_chain\<close>, and on a one-block candidate whose block records the difficulty
  \<open>2^63\<close> beside a matching Proof-of-Work hash the prefix \<^verbatim>\<open>"0" * difficulty\<close> raises
  OverflowError; nothing catches either, and \<^verbatim>\<open>replace_chain\<close> raises with it.
\<close>

theorem replace_chain_raises_on_invalid_candidate:
  "replace_chain P (w\<lparr>chain_list := [b]\<rparr>) (JList [JInt 1, JInt 2]) = Raises TypeError
   \<and> replace_chain P (w\<lparr>chain_list := []\<rparr>) (chain_json [oversized_block P t d]) = Raises OverflowError"
proof -
  have m: "calculate_merkle_for_block P (oversized_block P t d) = calculate_merkle_root P d"
    by (simp add: calculate_merkle_for_block_def calculate_merkle_root_def block_data_def
          dict_get_default_def oversized_block_def py_or_def)
  have n: "numeric_fields P (oversized_block P t d) = Some (t, 0, 2 ^ 63)"
    by (simp add: numeric_fields_def dict_get_default_def dict_has_def oversized_block_def)
  have c: "consensus_check P (oversized_block P t d) t 0 (2 ^ 63) = Inl OverflowError"
    by (simp add: consensus_check_def dict_get_default_def dict_get_def oversized_block_def
          py_eq_JStr_left py_eq_JStr_right repeat_zero_def)
  have f: "\<not> list_ex (\<lambda>field. \<not> dict_has (oversized_block P t d) field) required_fields"
    by (simp add: required_fields_def dict_has_def oversized_block_def)
  have r: "py_eq (dict_get (oversized_block P t d) ''merkle_root'') (JStr (calculate_merkle_root P d))"
    by (simp add: dict_get_def dict_get_default_def oversized_block_def py_eq_refl)
  from f r c have "check_block P None (oversized_block P t d) = Inl OverflowError"
    by (simp add: check_block_def m n)
  then have "is_valid_chain P (chain_json [oversized_block P t d]) = Inl OverflowError"
    by (simp add: is_valid_chain_dicts)
  then have 2: "replace_chain P (w\<lparr>chain_list := []\<rparr>) (chain_json [oversized_block P t d])
      = Raises OverflowError"
    by (simp add: replace_chain_dicts)
  have 1: "replace_chain P (w\<lparr>chain_list := [b]\<rparr>) (JList [JInt 1, JInt 2]) = Raises TypeError"
    by (simp add: replace_chain_def is_valid_chain_def)
  from 1 2 show ?thesis by (rule conjI)
qed

subsection \<open>Start-up\<close>

lemma init_recovers:
  assumes "consensus_arg = ''pow'' \<or> consensus_arg = ''poa''"
    and "f = Absent \<or> f = Unparseable
         \<or> (\<exists>v. f = Content v \<and> (\<not> py_truthy v \<or> is_valid_chain P v = Inr False))"
  shows "init P consensus_arg difficulty_arg key now salt f
           = init_fresh_chain P (initial_ledger consensus_arg difficulty_arg key f) now salt"
  using assms
  by (auto simp: init_def initial_ledger_def load_chain_def Let_def)

lemma init_adopts:
  assumes "consensus_arg = ''pow'' \<or> consensus_arg = ''poa''"
    and "is_valid_chain P v = Inr True"
  shows "init P consensus_arg difficulty_arg key now salt (Content v)
           = Returns (initial_ledger consensus_arg difficulty_arg key (Content v)\<lparr>chain_list := blocks_of v\<rparr>)"
proof -
  from assms(2) have "py_truthy v"
    by (auto simp: is_valid_chain_def split: if_splits)
  with assms show ?thesis
    by (auto simp: init_def initial_ledger_def load_chain_def Let_def)
qed

lemma init_fresh_chain_result:
  assumes "init_fresh_chain P w now salt = Returns w1"
  shows "length (chain_list w1) = 1" and "disk w1 = Content (chain_json (chain_list w1))"
proof -
  from assms obtain b where
    r: "create_block P (w\<lparr>chain_list := []\<rparr>) genesis_data now salt = Returns (b, w1)"
    and c: "chain_list w1 = [b]"
    by (rule init_fresh_chain_Returns)
  from c show "length (chain_list w1) = 1" by simp
  from r obtain prev nonce dif h a where
    "w1 = w\<lparr>chain_list := []\<rparr>\<lparr>chain_list := chain_list (w\<lparr>chain_list := []\<rparr>) @ [b],
            disk := Content (chain_json (chain_list (w\<lparr>chain_list := []\<rparr>) @ [b]))\<rparr>"
    by (rule create_block_Returns)
  then show "disk w1 = Content (chain_json (chain_list w1))" by simp
qed

lemma malformed_store_raises:
  "is_valid_chain P (JList [JInt 1]) = Inl TypeError"
  "is_valid_chain P (JObj [(''a'', JInt 1)]) = Inl KeyError"
  "is_valid_chain P (JInt 5) = Inl TypeError"
  by (simp_all add: is_valid_chain_def)

text \<open>
  Claim C8. With an absent store, a store that does not parse, a falsy loaded value or a
  loaded value that \<^verbatim>\<open>is_valid_chain\<close> rejects, \<^verbatim>\<open>__init__\<close> is \<^verbatim>\<open>_init_fresh_chain\<close>
  (\<open>init_recovers\<close>), whose result has one block and is persisted
  (\<open>init_fresh_chain_result\<close>); an accepted value is adopted (\<open>init_adopts\<close>). But a
  store that parses to a value that is not a list of dicts is neither discarded nor
  adopted: for \<^verbatim>\<open>[1]\<close> the test \<^verbatim>\<open>"timestamp" not in 1\<close> raises TypeError inside
  \<^verbatim>\<open>is_valid_chain\<close>, for \<^verbatim>\<open>{"a": 1}\<close> the access \<^verbatim>\<open>chain[0]\<close> raises KeyError, and
  the constructor raises with it.
\<close>

theorem init_raises_on_malformed_store:
  "init P ''poa'' None key now salt (Content (JList [JInt 1])) = Raises TypeError
   \<and> init P ''pow'' (Some d) key now salt (Content (JList [JInt 1])) = Raises TypeError
   \<and> init P ''poa'' None key now salt (Content (JObj [(''a'', JInt 1)])) = Raises KeyError"
  by (simp add: init_def load_chain_def malformed_store_raises)

end
